theory Spec2Isabelle
  imports Complex_Main "HOL-Library.Sublist"
begin

section \<open>Data model: the frame that \<^verbatim>\<open>pd.read_csv\<close> hands to the script\<close>

text \<open>
  \<^verbatim>\<open>app.py\<close> is one straight-line script over a pandas DataFrame \<^verbatim>\<open>df\<close>. The
  frame is modelled column-major, as pandas stores it: an index of row labels and an
  ordered list of named, typed columns.

  A double is a finite real, an infinity or not-a-number. Comparisons of doubles are
  exact, so the finite doubles are taken as the reals they denote. An \<^verbatim>\<open>int64\<close> cell
  meets a Python float through its conversion to a double, which rounds an integer of
  more than 53 bits to the nearest double, ties to even.
\<close>

datatype float64 = Fin real | PosInf | NegInf | NaN

text \<open>A cell is an integer, a double, a boolean, a string or a point in time.\<close>

datatype cell = I int | F float64 | B bool | S string | T int

datatype dtype = Int64 | Float64 | Bool | Object | Category | Datetime64 | Timedelta64

text \<open>The exceptions of the library calls; \<open>NoSuchOption\<close> stands for a widget that
  answers with something it does not offer, which no widget does.\<close>

datatype error = KeyError | TypeError | IndexingError | StreamlitAPIException | NoSuchOption

record series =
  sname :: string
  sdtype :: dtype
  svalues :: "cell list"

record dataframe =
  df_index :: "nat list"
  df_columns :: "series list"

text \<open>The frame comes from \<^verbatim>\<open>pd.read_csv(uploaded_file)\<close> (line 90) with no further
  arguments, which infers \<^verbatim>\<open>int64\<close>, \<^verbatim>\<open>float64\<close>, \<^verbatim>\<open>bool\<close> or \<^verbatim>\<open>object\<close> per column.
  A missing entry is \<open>F NaN\<close>; an integer or boolean column has none, an object column
  holds text, booleans and missing entries.\<close>

fun wf_cell :: "dtype \<Rightarrow> cell \<Rightarrow> bool" where
  "wf_cell Int64 v = (case v of I _ \<Rightarrow> True | _ \<Rightarrow> False)"
| "wf_cell Float64 v = (case v of F _ \<Rightarrow> True | _ \<Rightarrow> False)"
| "wf_cell Bool v = (case v of B _ \<Rightarrow> True | _ \<Rightarrow> False)"
| "wf_cell Object v = (case v of S _ \<Rightarrow> True | B _ \<Rightarrow> True | F x \<Rightarrow> x = NaN | _ \<Rightarrow> False)"
| "wf_cell _ v = False"

definition wf_series :: "nat \<Rightarrow> series \<Rightarrow> bool" where
  "wf_series n c = (length (svalues c) = n \<and> list_all (wf_cell (sdtype c)) (svalues c))"

definition wf_df :: "dataframe \<Rightarrow> bool" where
  "wf_df df = (distinct (df_index df) \<and> distinct (map sname (df_columns df)) \<and>
     list_all (wf_series (length (df_index df))) (df_columns df))"

definition nrows :: "dataframe \<Rightarrow> nat" where
  "nrows df = length (df_index df)"

definition row_at :: "dataframe \<Rightarrow> nat \<Rightarrow> nat \<times> cell list" where
  "row_at df i = (df_index df ! i, map (\<lambda>c. svalues c ! i) (df_columns df))"

definition rows :: "dataframe \<Rightarrow> (nat \<times> cell list) list" where
  "rows df = map (row_at df) [0..<nrows df]"

definition columns :: "dataframe \<Rightarrow> string list" where
  "columns df = map sname (df_columns df)"


section \<open>The pandas operations the script calls\<close>

text \<open>
  Each definition below is one library call of \<^verbatim>\<open>app.py\<close>, with the behaviour
  pandas documents for it. An exception is the value \<open>Inl e\<close>.
\<close>

text \<open>\<^verbatim>\<open>df.select_dtypes(include=...)\<close>: the columns whose dtype is listed, in order.
  \<^verbatim>\<open>"number"\<close> stands for the dtypes under numpy's \<^verbatim>\<open>number\<close>: the integer and
  floating ones and \<^verbatim>\<open>timedelta64\<close>, which numpy counts among the signed integers;
  \<^verbatim>\<open>bool\<close>, \<^verbatim>\<open>datetime64\<close>, \<^verbatim>\<open>object\<close> and \<^verbatim>\<open>category\<close> are not under it.\<close>

definition number :: "dtype list" where
  "number = [Int64, Float64, Timedelta64]"

definition select_dtypes :: "dtype list \<Rightarrow> dataframe \<Rightarrow> dataframe" where
  "select_dtypes include df =
     df\<lparr>df_columns := filter (\<lambda>c. sdtype c \<in> set include) (df_columns df)\<rparr>"

text \<open>\<^verbatim>\<open>df[key]\<close> for a column label: the column, or \<^verbatim>\<open>KeyError\<close>.\<close>

fun column_pos :: "string \<Rightarrow> series list \<Rightarrow> nat option" where
  "column_pos key [] = None"
| "column_pos key (c # cs) =
     (if sname c = key then Some 0 else map_option Suc (column_pos key cs))"

definition getitem :: "dataframe \<Rightarrow> string \<Rightarrow> error + series" where
  "getitem df key =
     (case column_pos key (df_columns df) of
        None \<Rightarrow> Inl KeyError
      | Some p \<Rightarrow> Inr (df_columns df ! p))"

text \<open>Comparison of doubles: every comparison with not-a-number is false.\<close>

fun fle :: "float64 \<Rightarrow> float64 \<Rightarrow> bool" where
  "fle NaN _ = False"
| "fle _ NaN = False"
| "fle NegInf _ = True"
| "fle _ PosInf = True"
| "fle (Fin a) (Fin b) = (a \<le> b)"
| "fle _ _ = False"

definition fge :: "float64 \<Rightarrow> float64 \<Rightarrow> bool" where
  "fge a b = fle b a"

text \<open>The conversion of an integer to a double. \<open>shift53 n\<close> is the number of low bits
  that do not fit into the 53 bits of the significand; they are rounded away, to the
  nearest multiple of \<open>2 ^ e\<close>, a tie going to the even significand. An \<^verbatim>\<open>int64\<close> is below
  \<open>2 ^ 64\<close> in magnitude, so the result is always finite.\<close>

function shift53 :: "nat \<Rightarrow> nat" where
  "shift53 n = (if n < 2 ^ 53 then 0 else Suc (shift53 (n div 2)))"
  by pat_completeness auto
termination
  by (relation "measure (\<lambda>n. n)") auto

declare shift53.simps [simp del]

definition round_to :: "nat \<Rightarrow> nat \<Rightarrow> nat" where
  "round_to e n =
     (let q = n div 2 ^ e; r = n mod 2 ^ e
      in if 2 * r > 2 ^ e \<or> (2 * r = 2 ^ e \<and> odd q) then (q + 1) * 2 ^ e else q * 2 ^ e)"

definition double_of_nat :: "nat \<Rightarrow> nat" where
  "double_of_nat n = round_to (shift53 n) n"

definition double_of_int :: "int \<Rightarrow> real" where
  "double_of_int i =
     (if i < 0 then - real (double_of_nat (nat (- i))) else real (double_of_nat (nat i)))"

text \<open>A cell as the double a numeric operation sees; text and timestamps do not
  compare with a number (\<^verbatim>\<open>TypeError\<close>).\<close>

fun to_float :: "cell \<Rightarrow> error + float64" where
  "to_float (I n) = Inr (Fin (double_of_int n))"
| "to_float (F x) = Inr x"
| "to_float (B b) = Inr (Fin (if b then 1 else 0))"
| "to_float (S _) = Inl TypeError"
| "to_float (T _) = Inl TypeError"

fun floats_of :: "cell list \<Rightarrow> error + float64 list" where
  "floats_of [] = Inr []"
| "floats_of (v # vs) =
     (case to_float v of
        Inl e \<Rightarrow> Inl e
      | Inr x \<Rightarrow> (case floats_of vs of Inl e \<Rightarrow> Inl e | Inr xs \<Rightarrow> Inr (x # xs)))"

text \<open>\<^verbatim>\<open>series >= x\<close> and \<^verbatim>\<open>series <= x\<close>: elementwise, a boolean mask.\<close>

definition series_ge :: "series \<Rightarrow> float64 \<Rightarrow> error + bool list" where
  "series_ge s x =
     (case floats_of (svalues s) of Inl e \<Rightarrow> Inl e | Inr xs \<Rightarrow> Inr (map (\<lambda>v. fge v x) xs))"

definition series_le :: "series \<Rightarrow> float64 \<Rightarrow> error + bool list" where
  "series_le s x =
     (case floats_of (svalues s) of Inl e \<Rightarrow> Inl e | Inr xs \<Rightarrow> Inr (map (\<lambda>v. fle v x) xs))"

text \<open>\<^verbatim>\<open>m1 & m2\<close> on two masks over the same index.\<close>

definition mask_and :: "bool list \<Rightarrow> bool list \<Rightarrow> bool list" where
  "mask_and m1 m2 = map (\<lambda>(a, b). a \<and> b) (zip m1 m2)"

text \<open>\<^verbatim>\<open>df[mask]\<close>: the rows where the mask is true, labels kept, every column cut the
  same way; a mask of another length is refused.\<close>

definition select :: "bool list \<Rightarrow> 'a list \<Rightarrow> 'a list" where
  "select m xs = map fst (filter snd (zip xs m))"

definition getitem_mask :: "dataframe \<Rightarrow> bool list \<Rightarrow> error + dataframe" where
  "getitem_mask df m =
     (if length m \<noteq> nrows df then Inl IndexingError
      else Inr \<lparr>df_index = select m (df_index df),
                df_columns = map (\<lambda>c. c\<lparr>svalues := select m (svalues c)\<rparr>) (df_columns df)\<rparr>)"

text \<open>\<^verbatim>\<open>series.min()\<close> and \<^verbatim>\<open>series.max()\<close> skip missing entries and give
  not-a-number when nothing is left; \<^verbatim>\<open>float(...)\<close> of the result is the double.\<close>

definition fmin :: "float64 \<Rightarrow> float64 \<Rightarrow> float64" where
  "fmin a b = (if fle a b then a else b)"

definition fmax :: "float64 \<Rightarrow> float64 \<Rightarrow> float64" where
  "fmax a b = (if fle a b then b else a)"

definition notna :: "float64 \<Rightarrow> bool" where
  "notna x = (x \<noteq> NaN)"

definition nanmin :: "float64 list \<Rightarrow> float64" where
  "nanmin xs = (case filter notna xs of [] \<Rightarrow> NaN | y # ys \<Rightarrow> fold fmin ys y)"

definition nanmax :: "float64 list \<Rightarrow> float64" where
  "nanmax xs = (case filter notna xs of [] \<Rightarrow> NaN | y # ys \<Rightarrow> fold fmax ys y)"

definition series_min :: "series \<Rightarrow> error + float64" where
  "series_min s =
     (case floats_of (svalues s) of Inl e \<Rightarrow> Inl e | Inr xs \<Rightarrow> Inr (nanmin xs))"

definition series_max :: "series \<Rightarrow> error + float64" where
  "series_max s =
     (case floats_of (svalues s) of Inl e \<Rightarrow> Inl e | Inr xs \<Rightarrow> Inr (nanmax xs))"

text \<open>\<^verbatim>\<open>df.copy()\<close>: a new frame with the same content.\<close>

definition copy :: "dataframe \<Rightarrow> dataframe" where
  "copy df = df"


section \<open>The script\<close>

text \<open>
  The widgets return what the user picked: \<^verbatim>\<open>st.sidebar.selectbox\<close> one of the options
  it was given, \<^verbatim>\<open>st.sidebar.slider\<close> a pair of doubles between its bounds. What the user
  picks is an input of the model. The overview and the preview of lines 93-104, the charts
  and the download button only display what is computed here and are left out.
\<close>

record widgets =
  num_choice :: nat
  selected_range :: "float64 \<times> float64"
  cat_choice :: nat

definition selectbox :: "nat \<Rightarrow> string list \<Rightarrow> string option" where
  "selectbox k options = (if k < length options then Some (options ! k) else None)"

text \<open>Lines 119-124: \<^verbatim>\<open>st.sidebar.slider(..., min_value=min_val, max_value=max_val,
  value=(min_val, max_val))\<close>. Streamlit refuses a bound that is infinite and bounds that
  are equal (\<^verbatim>\<open>StreamlitAPIException\<close>), so the script stops there for a column that is
  constant, has one row or holds an infinity. Between two different finite bounds the
  slider answers with a pair \<open>lo \<le> hi\<close> inside them, at first with the bounds themselves.
  Bounds that are both not-a-number (a column without values) pass the checks, all of them
  comparisons, and the slider answers with its initial value, the bounds.\<close>

definition slider :: "float64 \<Rightarrow> float64 \<Rightarrow> float64 \<times> float64 \<Rightarrow> error + float64 \<times> float64" where
  "slider min_value max_value answer =
     (case (min_value, max_value) of
        (Fin a, Fin b) \<Rightarrow>
          if a < b then
            (if fle (Fin a) (fst answer) \<and> fle (fst answer) (snd answer) \<and>
                fle (snd answer) (Fin b)
             then Inr answer else Inl NoSuchOption)
          else Inl StreamlitAPIException
      | (NaN, NaN) \<Rightarrow> Inr (NaN, NaN)
      | _ \<Rightarrow> Inl StreamlitAPIException)"

text \<open>Line 113: \<^verbatim>\<open>numeric_cols = df.select_dtypes(include="number").columns\<close>.\<close>

definition numeric_cols :: "dataframe \<Rightarrow> string list" where
  "numeric_cols df = columns (select_dtypes number df)"

text \<open>Line 137:
  \<^verbatim>\<open>cat_cols = df.select_dtypes(include=["object", "category", "bool"]).columns\<close>.\<close>

definition cat_cols :: "dataframe \<Rightarrow> string list" where
  "cat_cols df = columns (select_dtypes [Object, Category, Bool] df)"

text \<open>Lines 117-118: \<^verbatim>\<open>float(df[num_column].min())\<close>, \<^verbatim>\<open>float(df[num_column].max())\<close>.\<close>

definition min_val :: "dataframe \<Rightarrow> string \<Rightarrow> error + float64" where
  "min_val df num_column =
     (case getitem df num_column of Inl e \<Rightarrow> Inl e | Inr s \<Rightarrow> series_min s)"

definition max_val :: "dataframe \<Rightarrow> string \<Rightarrow> error + float64" where
  "max_val df num_column =
     (case getitem df num_column of Inl e \<Rightarrow> Inl e | Inr s \<Rightarrow> series_max s)"

text \<open>Lines 127-130:
  \<^verbatim>\<open>df[(df[num_column] >= selected_range[0]) & (df[num_column] <= selected_range[1])]\<close>.\<close>

definition range_filter :: "dataframe \<Rightarrow> string \<Rightarrow> float64 \<times> float64 \<Rightarrow> error + dataframe" where
  "range_filter df num_column rng =
     (case getitem df num_column of
        Inl e \<Rightarrow> Inl e
      | Inr s1 \<Rightarrow>
     (case series_ge s1 (fst rng) of
        Inl e \<Rightarrow> Inl e
      | Inr m1 \<Rightarrow>
     (case getitem df num_column of
        Inl e \<Rightarrow> Inl e
      | Inr s2 \<Rightarrow>
     (case series_le s2 (snd rng) of
        Inl e \<Rightarrow> Inl e
      | Inr m2 \<Rightarrow> getitem_mask df (mask_and m1 m2)))))"

text \<open>Lines 114-134: the variable \<^verbatim>\<open>filtered_df\<close>, by the branch on
  \<^verbatim>\<open>len(numeric_cols) > 0\<close>.\<close>

definition filtered_df :: "widgets \<Rightarrow> dataframe \<Rightarrow> error + dataframe" where
  "filtered_df w df =
     (if length (numeric_cols df) > 0 then
        (case selectbox (num_choice w) (numeric_cols df) of
           None \<Rightarrow> Inl NoSuchOption
         | Some num_column \<Rightarrow>
        (case min_val df num_column of
           Inl e \<Rightarrow> Inl e
         | Inr mn \<Rightarrow>
        (case max_val df num_column of
           Inl e \<Rightarrow> Inl e
         | Inr mx \<Rightarrow>
        (case slider mn mx (selected_range w) of
           Inl e \<Rightarrow> Inl e
         | Inr rng \<Rightarrow> range_filter df num_column rng))))
      else Inr (copy df))"


text \<open>\<^verbatim>\<open>filtered_df[numeric_cols]\<close>: the listed columns, in the order listed.\<close>

fun getitem_list :: "dataframe \<Rightarrow> string list \<Rightarrow> error + series list" where
  "getitem_list df [] = Inr []"
| "getitem_list df (k # ks) =
     (case getitem df k of
        Inl e \<Rightarrow> Inl e
      | Inr s \<Rightarrow> (case getitem_list df ks of Inl e \<Rightarrow> Inl e | Inr ss \<Rightarrow> Inr (s # ss)))"

text \<open>\<^verbatim>\<open>series.value_counts()\<close>: the distinct non-missing values with their number of
  occurrences, collected in the order they are first met, then sorted by descending count.\<close>

definition isna :: "cell \<Rightarrow> bool" where
  "isna v = (v = F NaN)"

fun bump :: "cell \<Rightarrow> (cell \<times> nat) list \<Rightarrow> (cell \<times> nat) list" where
  "bump k [] = [(k, 1)]"
| "bump k ((k', n) # t) = (if k = k' then (k', Suc n) # t else (k', n) # bump k t)"

definition tally :: "cell list \<Rightarrow> (cell \<times> nat) list" where
  "tally vs = fold (\<lambda>v t. if isna v then t else bump v t) vs []"

text \<open>Modelled from the spec: the order in which the library's sort leaves entries of equal
  count is not fixed by this repository; the spec's design notes take it to be insertion
  order, that is, a stable sort.\<close>

definition sort_values_desc :: "(cell \<times> nat) list \<Rightarrow> (cell \<times> nat) list" where
  "sort_values_desc t = sort_key (\<lambda>kc. - int (snd kc)) t"

definition series_value_counts :: "series \<Rightarrow> (cell \<times> nat) list" where
  "series_value_counts s = sort_values_desc (tally (svalues s))"

text \<open>Modelled from the spec: \<^verbatim>\<open>DataFrame.corr()\<close> is a library call whose code is not in
  this repository. The spec gives it as the pairwise Pearson correlation of the columns,
  the rows with a missing value in either column of a pair left out, and not-a-number where
  a column has no variance. It is taken here in exact arithmetic over the doubles as reals;
  a pair of columns with an infinite value among its rows has no correlation
  (not-a-number).\<close>

fun floats_of_all :: "series list \<Rightarrow> error + float64 list list" where
  "floats_of_all [] = Inr []"
| "floats_of_all (s # ss) =
     (case floats_of (svalues s) of
        Inl e \<Rightarrow> Inl e
      | Inr xs \<Rightarrow> (case floats_of_all ss of Inl e \<Rightarrow> Inl e | Inr xss \<Rightarrow> Inr (xs # xss)))"

definition complete_pairs :: "float64 list \<Rightarrow> float64 list \<Rightarrow> (float64 \<times> float64) list" where
  "complete_pairs xs ys = filter (\<lambda>(x, y). x \<noteq> NaN \<and> y \<noteq> NaN) (zip xs ys)"

fun real_of :: "float64 \<Rightarrow> real option" where
  "real_of (Fin a) = Some a"
| "real_of _ = None"

definition real_pair :: "float64 \<times> float64 \<Rightarrow> (real \<times> real) option" where
  "real_pair p =
     (case real_of (fst p) of
        None \<Rightarrow> None
      | Some a \<Rightarrow> (case real_of (snd p) of None \<Rightarrow> None | Some b \<Rightarrow> Some (a, b)))"

definition mean :: "real list \<Rightarrow> real" where
  "mean rs = sum_list rs / real (length rs)"

definition pearson_real :: "(real \<times> real) list \<Rightarrow> float64" where
  "pearson_real ps =
     (let mx = mean (map fst ps); my = mean (map snd ps);
          sxx = (\<Sum>p\<leftarrow>ps. (fst p - mx) * (fst p - mx));
          syy = (\<Sum>p\<leftarrow>ps. (snd p - my) * (snd p - my));
          sxy = (\<Sum>p\<leftarrow>ps. (fst p - mx) * (snd p - my))
      in if sxx * syy = 0 then NaN else Fin (sxy / sqrt (sxx * syy)))"

definition pearson :: "float64 list \<Rightarrow> float64 list \<Rightarrow> float64" where
  "pearson xs ys =
     (case those (map real_pair (complete_pairs xs ys)) of
        None \<Rightarrow> NaN
      | Some ps \<Rightarrow> if ps = [] then NaN else pearson_real ps)"

definition corr :: "series list \<Rightarrow> error + float64 list list" where
  "corr sub =
     (case floats_of_all sub of
        Inl e \<Rightarrow> Inl e
      | Inr xss \<Rightarrow> Inr (map (\<lambda>xs. map (\<lambda>ys. pearson xs ys) xss) xss))"

text \<open>What the script shows, in the order it shows it. The correlation heat map is recorded
  by its row and column labels and its matrix; the charts are left out.\<close>

datatype shown =
    Write_filtered_rows nat
  | Sidebar_warning string
  | Sidebar_info string
  | Info string
  | Corr_heatmap "string list" "float64 list list"
  | Value_counts_table string "(cell \<times> nat) list"

text \<open>Lines 131 and 134: the message of each branch of the filter.\<close>

definition filter_outputs :: "dataframe \<Rightarrow> dataframe \<Rightarrow> shown list" where
  "filter_outputs df fdf =
     (if length (numeric_cols df) > 0 then [Write_filtered_rows (nrows fdf)]
      else [Sidebar_warning ''No numeric columns found for filtering.''])"

text \<open>Lines 138-143: the variable \<^verbatim>\<open>cat_column\<close>.\<close>

definition cat_column :: "widgets \<Rightarrow> dataframe \<Rightarrow> error + string option" where
  "cat_column w df =
     (if length (cat_cols df) > 0 then
        (case selectbox (cat_choice w) (cat_cols df) of
           None \<Rightarrow> Inl NoSuchOption
         | Some c \<Rightarrow> Inr (Some c))
      else Inr None)"

definition cat_outputs :: "dataframe \<Rightarrow> shown list" where
  "cat_outputs df =
     (if length (cat_cols df) > 0 then [] else [Sidebar_info ''No categorical columns found.''])"

text \<open>Lines 148-190: the numeric block, of which the correlation part is kept:
  \<^verbatim>\<open>corr_matrix = filtered_df[numeric_cols].corr()\<close>, labelled by the columns it is
  taken over.\<close>

definition numeric_visualizations :: "dataframe \<Rightarrow> dataframe \<Rightarrow> error + shown list" where
  "numeric_visualizations df fdf =
     (if length (numeric_cols df) > 0 then
        (if length (numeric_cols df) \<ge> 2 then
           (case getitem_list fdf (numeric_cols df) of
              Inl e \<Rightarrow> Inl e
            | Inr sub \<Rightarrow>
               (case corr sub of
                  Inl e \<Rightarrow> Inl e
                | Inr corr_matrix \<Rightarrow> Inr [Corr_heatmap (map sname sub) corr_matrix]))
         else Inr [Info ''At least two numeric columns are required for correlation analysis.''])
      else Inr [])"

text \<open>Lines 193-197: \<^verbatim>\<open>filtered_df[cat_column].value_counts().reset_index()\<close>.\<close>

definition value_counts :: "dataframe \<Rightarrow> string \<Rightarrow> error + (cell \<times> nat) list" where
  "value_counts fdf c =
     (case getitem fdf c of Inl e \<Rightarrow> Inl e | Inr s \<Rightarrow> Inr (series_value_counts s))"

definition categorical_analysis :: "string option \<Rightarrow> dataframe \<Rightarrow> error + shown list" where
  "categorical_analysis cc fdf =
     (case cc of
        None \<Rightarrow> Inr []
      | Some c \<Rightarrow>
          (case value_counts fdf c of
             Inl e \<Rightarrow> Inl e
           | Inr vc \<Rightarrow> Inr [Value_counts_table c vc]))"

text \<open>The whole run after the upload: the variables the script holds at its end and what it
  has shown.\<close>

record session =
  s_df :: dataframe
  s_filtered_df :: dataframe
  s_outputs :: "shown list"

definition app :: "widgets \<Rightarrow> dataframe \<Rightarrow> error + session" where
  "app w df =
     (case filtered_df w df of
        Inl e \<Rightarrow> Inl e
      | Inr fdf \<Rightarrow>
     (case cat_column w df of
        Inl e \<Rightarrow> Inl e
      | Inr cc \<Rightarrow>
     (case numeric_visualizations df fdf of
        Inl e \<Rightarrow> Inl e
      | Inr o1 \<Rightarrow>
     (case categorical_analysis cc fdf of
        Inl e \<Rightarrow> Inl e
      | Inr o2 \<Rightarrow>
          Inr \<lparr>s_df = df, s_filtered_df = fdf,
               s_outputs = filter_outputs df fdf @ cat_outputs df @ o1 @ o2\<rparr>))))"

text \<open>The answers of the two select boxes are among the options offered.\<close>

definition valid_widgets :: "widgets \<Rightarrow> dataframe \<Rightarrow> bool" where
  "valid_widgets w df =
     ((numeric_cols df = [] \<or> num_choice w < length (numeric_cols df)) \<and>
      (cat_cols df = [] \<or> cat_choice w < length (cat_cols df)))"

section \<open>Predicates of the properties\<close>

text \<open>A cell of a numeric column holds a value that is not missing and lies in the closed
  interval of two reals: an integer by the double it converts to, a double by itself. A
  missing entry and an infinity are in no such interval.\<close>

fun in_interval :: "real \<Rightarrow> real \<Rightarrow> cell \<Rightarrow> bool" where
  "in_interval lo hi (I n) = (lo \<le> double_of_int n \<and> double_of_int n \<le> hi)"
| "in_interval lo hi (F (Fin x)) = (lo \<le> x \<and> x \<le> hi)"
| "in_interval lo hi _ = False"

text \<open>The same for bounds that are any doubles, by the comparison of the library.\<close>

definition in_range :: "float64 \<Rightarrow> float64 \<Rightarrow> cell \<Rightarrow> bool" where
  "in_range lo hi v = (\<exists>x. to_float v = Inr x \<and> x \<noteq> NaN \<and> fle lo x \<and> fle x hi)"


text \<open>Every entry of a column is missing (so also when the column has no entry).\<close>

definition all_missing :: "dataframe \<Rightarrow> string \<Rightarrow> bool" where
  "all_missing df c =
     (case getitem df c of Inl _ \<Rightarrow> False | Inr s \<Rightarrow> list_all isna (svalues s))"





section \<open>Example frames\<close>

text \<open>The spec's scenario: \<^verbatim>\<open>age\<close> 20, 30, 40, 50 and \<^verbatim>\<open>city\<close> NY, NY, LA, SF.\<close>

definition scenario_df :: dataframe where
  "scenario_df = \<lparr>df_index = [0, 1, 2, 3], df_columns =
     [\<lparr>sname = ''age'', sdtype = Int64, svalues = [I 20, I 30, I 40, I 50]\<rparr>,
      \<lparr>sname = ''city'', sdtype = Object,
        svalues = [S ''NY'', S ''NY'', S ''LA'', S ''SF'']\<rparr>]\<rparr>"

text \<open>A frame with a missing entry in its numeric column.\<close>

definition missing_df :: dataframe where
  "missing_df = \<lparr>df_index = [0, 1, 2], df_columns =
     [\<lparr>sname = ''score'', sdtype = Float64, svalues = [F (Fin 1), F NaN, F (Fin 3)]\<rparr>,
      \<lparr>sname = ''tag'', sdtype = Object, svalues = [S ''a'', S ''b'', S ''a'']\<rparr>]\<rparr>"

text \<open>A numeric column whose entries are all missing.\<close>

definition all_missing_df :: dataframe where
  "all_missing_df = \<lparr>df_index = [0, 1], df_columns =
     [\<lparr>sname = ''score'', sdtype = Float64, svalues = [F NaN, F NaN]\<rparr>,
      \<lparr>sname = ''tag'', sdtype = Object, svalues = [S ''a'', S ''b'']\<rparr>]\<rparr>"

text \<open>A header and no rows: every column is of dtype \<^verbatim>\<open>object\<close>.\<close>

definition header_only_df :: dataframe where
  "header_only_df = \<lparr>df_index = [], df_columns =
     [\<lparr>sname = ''age'', sdtype = Object, svalues = []\<rparr>,
      \<lparr>sname = ''city'', sdtype = Object, svalues = []\<rparr>]\<rparr>"

text \<open>Text columns only.\<close>

definition text_df :: dataframe where
  "text_df = \<lparr>df_index = [0, 1], df_columns =
     [\<lparr>sname = ''city'', sdtype = Object, svalues = [S ''NY'', S ''LA'']\<rparr>]\<rparr>"

text \<open>One column of each kind, a timestamp column and a duration column among them.\<close>

definition typed_df :: dataframe where
  "typed_df = \<lparr>df_index = [0], df_columns =
     [\<lparr>sname = ''n'', sdtype = Int64, svalues = [I 1]\<rparr>,
      \<lparr>sname = ''x'', sdtype = Float64, svalues = [F (Fin 2)]\<rparr>,
      \<lparr>sname = ''flag'', sdtype = Bool, svalues = [B True]\<rparr>,
      \<lparr>sname = ''label'', sdtype = Object, svalues = [S ''a'']\<rparr>,
      \<lparr>sname = ''when'', sdtype = Datetime64, svalues = [T 0]\<rparr>,
      \<lparr>sname = ''took'', sdtype = Timedelta64, svalues = [T 5]\<rparr>]\<rparr>"

text \<open>An integer column with a value of more than 53 bits: \<open>2 ^ 53 + 1\<close>.\<close>

definition big_int_df :: dataframe where
  "big_int_df = \<lparr>df_index = [0, 1], df_columns =
     [\<lparr>sname = ''x'', sdtype = Int64, svalues = [I 0, I 9007199254740993]\<rparr>]\<rparr>"



text \<open>The first option of each select box, and a range for the slider.\<close>

definition default_widgets :: widgets where
  "default_widgets = \<lparr>num_choice = 0, selected_range = (Fin 25, Fin 45), cat_choice = 0\<rparr>"

definition full_widgets :: widgets where
  "full_widgets = \<lparr>num_choice = 0, selected_range = (Fin 1, Fin 3), cat_choice = 0\<rparr>"


section \<open>Properties\<close>

subsection \<open>The conversion of integers to doubles\<close>

lemma shift53_small: "n < 2 ^ 53 \<Longrightarrow> shift53 n = 0"
  by (simp add: shift53.simps)

lemma double_of_nat_small: "n < 2 ^ 53 \<Longrightarrow> double_of_nat n = n"
  by (simp add: double_of_nat_def round_to_def shift53_small)

lemma double_of_int_small: "\<bar>i\<bar> < 2 ^ 53 \<Longrightarrow> double_of_int i = of_int i"
proof -
  assume a: "\<bar>i\<bar> < 2 ^ 53"
  then have "nat \<bar>i\<bar> < 2 ^ 53"
    by (metis nat_less_numeral_power_cancel_iff)
  then show ?thesis
    by (cases "i < 0") (simp_all add: double_of_int_def double_of_nat_small abs_if)
qed

lemma double_of_int_big: "double_of_int 9007199254740993 = 9007199254740992"
  by (simp add: double_of_int_def double_of_nat_def round_to_def
      shift53.simps [of 9007199254740993] shift53.simps [of 4503599627370496])


subsection \<open>Boolean masks and rows\<close>


lemma select_Nil [simp]: "select m [] = []" "select [] xs = []"
  by (simp_all add: select_def)

lemma select_Cons [simp]: "select (b # m) (x # xs) = (if b then x # select m xs else select m xs)"
  by (simp add: select_def)

lemma select_map: "select m (map f xs) = map f (select m xs)"
proof (induction xs arbitrary: m)
  case Nil
  then show ?case by simp
next
  case (Cons x xs)
  then show ?case by (cases m) simp_all
qed

lemma select_map_pred: "select (map P xs) xs = filter P xs"
  by (induction xs) simp_all

lemma select_positions:
  "select m xs = map ((!) xs) (select m [0..<length xs])"
proof -
  have "select m xs = select m (map ((!) xs) [0..<length xs])"
    by (simp only: map_nth)
  then show ?thesis by (simp only: select_map)
qed

lemma select_length_nth:
  assumes "length xs = n" "k < length (select m [0..<n])"
  shows "select m xs ! k = xs ! (select m [0..<n] ! k)"
proof -
  have "select m xs = map ((!) xs) (select m [0..<n])"
    using assms(1) select_positions [of m xs] by simp
  then show ?thesis using assms(2) by simp
qed

lemma length_select_same:
  "length xs = length ys \<Longrightarrow> length (select m xs) = length (select m ys)"
proof (induction xs arbitrary: m ys)
  case Nil
  then show ?case by simp
next
  case (Cons x xs)
  then obtain y ys' where ys: "ys = y # ys'" by (cases ys) auto
  with Cons show ?case by (cases m) auto
qed

lemma rows_getitem_mask:
  assumes wf: "wf_df df" and len: "length m = nrows df"
  shows "\<exists>fv. getitem_mask df m = Inr fv \<and> rows fv = select m (rows df)
          \<and> columns fv = columns df \<and> map sdtype (df_columns fv) = map sdtype (df_columns df)"
proof -
  define n where "n = nrows df"
  define P where "P = select m [0..<n]"
  define fv where "fv = \<lparr>df_index = select m (df_index df),
                df_columns = map (\<lambda>c. c\<lparr>svalues := select m (svalues c)\<rparr>) (df_columns df)\<rparr>"
  have g: "getitem_mask df m = Inr fv"
    using len by (simp add: getitem_mask_def fv_def)
  have lenc: "\<And>c. c \<in> set (df_columns df) \<Longrightarrow> length (svalues c) = n"
    using wf by (auto simp: wf_df_def wf_series_def list_all_iff n_def nrows_def)
  have leni: "length (df_index df) = n" by (simp add: n_def nrows_def)
  have nfv: "nrows fv = length P"
    unfolding nrows_def fv_def P_def using leni length_select_same [of "df_index df" "[0..<n]" m]
    by simp
  have row: "row_at fv k = row_at df (P ! k)" if "k < length P" for k
  proof -
    have "df_index fv ! k = df_index df ! (P ! k)"
      using select_length_nth [OF leni, of k m] that by (simp add: fv_def P_def)
    moreover have "map (\<lambda>c. svalues c ! k) (df_columns fv) = map (\<lambda>c. svalues c ! (P ! k)) (df_columns df)"
      using select_length_nth [OF lenc, of _ k m] that by (simp add: fv_def P_def)
    ultimately show ?thesis by (simp add: row_at_def)
  qed
  have "rows fv = map (\<lambda>k. row_at df (P ! k)) [0..<length P]"
    unfolding rows_def nfv using row by simp
  also have "\<dots> = map (row_at df) P"
    by (rule nth_equalityI) simp_all
  also have "\<dots> = select m (rows df)"
    by (simp add: rows_def P_def n_def select_map)
  finally have "rows fv = select m (rows df)" .
  moreover have "columns fv = columns df"
    by (simp add: columns_def fv_def o_def)
  moreover have "map sdtype (df_columns fv) = map sdtype (df_columns df)"
    by (simp add: fv_def o_def)
  ultimately show ?thesis using g by blast
qed


lemma column_pos_Some:
  "column_pos key cs = Some p \<Longrightarrow> p < length cs \<and> sname (cs ! p) = key"
  by (induction cs arbitrary: p) (auto split: if_splits)

lemma column_pos_mem:
  "key \<in> set (map sname cs) \<Longrightarrow> \<exists>p. column_pos key cs = Some p"
  by (induction cs) auto

lemma numeric_cols_mem:
  "c \<in> set (numeric_cols df) \<longleftrightarrow>
     (\<exists>s \<in> set (df_columns df). sname s = c \<and> sdtype s \<in> {Int64, Float64, Timedelta64})"
  by (auto simp: numeric_cols_def columns_def select_dtypes_def number_def)

lemma wf_number_to_float:
  "d \<in> {Int64, Float64, Timedelta64} \<Longrightarrow> wf_cell d v \<Longrightarrow> \<exists>x. to_float v = Inr x"
  by (cases v) auto

lemma wf_number_cell:
  "d \<in> {Int64, Float64, Timedelta64} \<Longrightarrow> wf_cell d v \<Longrightarrow> (\<exists>n. v = I n) \<or> (\<exists>x. v = F x)"
  by (cases v) auto

lemma floats_of_total:
  "\<forall>v \<in> set vs. \<exists>x. to_float v = Inr x \<Longrightarrow>
     \<exists>xs. floats_of vs = Inr xs"
  by (induction vs) auto

lemma floats_of_Inr:
  "floats_of vs = Inr xs \<Longrightarrow> map to_float vs = map Inr xs"
  by (induction vs arbitrary: xs) (auto split: sum.splits)

lemma fle_NaN [simp]: "\<not> fle x NaN" "\<not> fle NaN x"
  by (cases x; simp)+

lemma mask_in_range:
  assumes "floats_of vs = Inr xs"
  shows "mask_and (map (\<lambda>v. fge v lo) xs) (map (\<lambda>v. fle v hi) xs) = map (in_range lo hi) vs"
proof -
  have "map to_float vs = map Inr xs" using assms by (rule floats_of_Inr)
  then have len: "length vs = length xs" and nth: "\<And>i. i < length vs \<Longrightarrow> to_float (vs ! i) = Inr (xs ! i)"
    by (auto dest: map_eq_imp_length_eq simp: list_eq_iff_nth_eq)
  show ?thesis
  proof (rule nth_equalityI)
    show "length (mask_and (map (\<lambda>v. fge v lo) xs) (map (\<lambda>v. fle v hi) xs)) = length (map (in_range lo hi) vs)"
      using len by (simp add: mask_and_def)
  next
    fix i assume "i < length (mask_and (map (\<lambda>v. fge v lo) xs) (map (\<lambda>v. fle v hi) xs))"
    then have i: "i < length xs" by (simp add: mask_and_def)
    then have "to_float (vs ! i) = Inr (xs ! i)" using nth len by simp
    then have "in_range lo hi (vs ! i) = (fle lo (xs ! i) \<and> fle (xs ! i) hi)"
      by (auto simp: in_range_def)
    then show "mask_and (map (\<lambda>v. fge v lo) xs) (map (\<lambda>v. fle v hi) xs) ! i = map (in_range lo hi) vs ! i"
      using i len by (simp add: mask_and_def fge_def)
  qed
qed


lemma column_pos_distinct:
  "distinct (map sname cs) \<Longrightarrow> s \<in> set cs \<Longrightarrow>
     \<exists>p. column_pos (sname s) cs = Some p \<and> p < length cs \<and> cs ! p = s"
proof (induction cs)
  case Nil
  then show ?case by simp
next
  case (Cons c cs)
  show ?case
  proof (cases "s = c")
    case True
    then show ?thesis by simp
  next
    case False
    with Cons.prems have s: "s \<in> set cs" and ne: "sname c \<noteq> sname s" by auto
    from Cons.IH s Cons.prems(1) obtain p where "column_pos (sname s) cs = Some p" "p < length cs" "cs ! p = s"
      by auto
    with ne show ?thesis by simp
  qed
qed

lemma numeric_column:
  assumes wf: "wf_df df" and c: "c \<in> set (numeric_cols df)"
  shows "\<exists>p s. column_pos c (df_columns df) = Some p \<and> p < length (df_columns df) \<and>
           df_columns df ! p = s \<and> getitem df c = Inr s \<and> sname s = c \<and>
           sdtype s \<in> {Int64, Float64, Timedelta64} \<and> length (svalues s) = nrows df \<and>
           (\<exists>xs. floats_of (svalues s) = Inr xs)"
proof -
  from c obtain s where s: "s \<in> set (df_columns df)" "sname s = c" "sdtype s \<in> {Int64, Float64, Timedelta64}"
    by (auto simp: numeric_cols_mem)
  from wf have d: "distinct (map sname (df_columns df))" by (simp add: wf_df_def)
  from column_pos_distinct [OF d s(1)] s(2)
  obtain p where p: "column_pos c (df_columns df) = Some p" "p < length (df_columns df)" "df_columns df ! p = s"
    by auto
  from wf s(1) have ws: "length (svalues s) = nrows df" "\<forall>v \<in> set (svalues s). wf_cell (sdtype s) v"
    by (auto simp: wf_df_def wf_series_def list_all_iff nrows_def)
  have "\<forall>v \<in> set (svalues s). \<exists>x. to_float v = Inr x"
    using ws(2) s(3) wf_number_to_float by blast
  then have "\<exists>xs. floats_of (svalues s) = Inr xs" by (rule floats_of_total)
  with p s ws(1) show ?thesis by (simp add: getitem_def)
qed

lemma floats_of_length: "floats_of vs = Inr xs \<Longrightarrow> length xs = length vs"
  using floats_of_Inr [of vs xs] by (auto dest: map_eq_imp_length_eq)

lemma rows_column:
  assumes "p < length (df_columns df)" "nrows df \<le> length (svalues (df_columns df ! p))"
  shows "map (\<lambda>r. f (snd r ! p)) (rows df) = map f (take (nrows df) (svalues (df_columns df ! p)))"
  using assms by (auto simp: rows_def row_at_def list_eq_iff_nth_eq)

lemma range_filter_rows:
  assumes wf: "wf_df df" and c: "num_column \<in> set (numeric_cols df)"
  shows "\<exists>fv p. range_filter df num_column (lo, hi) = Inr fv \<and>
           column_pos num_column (df_columns df) = Some p \<and>
           rows fv = filter (\<lambda>r. in_range lo hi (snd r ! p)) (rows df) \<and>
           columns fv = columns df \<and> map sdtype (df_columns fv) = map sdtype (df_columns df)"
proof -
  from numeric_column [OF wf c] obtain p s xs where
    p: "column_pos num_column (df_columns df) = Some p" "p < length (df_columns df)"
       "df_columns df ! p = s" "getitem df num_column = Inr s" "length (svalues s) = nrows df"
       "floats_of (svalues s) = Inr xs"
    by blast
  define m where "m = mask_and (map (\<lambda>v. fge v lo) xs) (map (\<lambda>v. fle v hi) xs)"
  have m: "m = map (in_range lo hi) (svalues s)"
    unfolding m_def using p(6) by (rule mask_in_range)
  then have lm: "length m = nrows df" using p(5) by simp
  from rows_getitem_mask [OF wf lm] obtain fv where
    fv: "getitem_mask df m = Inr fv" "rows fv = select m (rows df)" "columns fv = columns df"
        "map sdtype (df_columns fv) = map sdtype (df_columns df)" by blast
  have rf: "range_filter df num_column (lo, hi) = Inr fv"
    using p(4) p(6) fv(1) by (simp add: range_filter_def series_ge_def series_le_def m_def)
  have "m = map (\<lambda>r. in_range lo hi (snd r ! p)) (rows df)"
    using rows_column [of p df "in_range lo hi"] p(2) p(3) p(5) m by simp
  then have eq: "rows fv = filter (\<lambda>r. in_range lo hi (snd r ! p)) (rows df)"
    using fv(2) by (simp add: select_map_pred)
  with rf p(1) fv(3) fv(4) show ?thesis by blast
qed

subsection \<open>The range filter\<close>

lemma rows_cells:
  assumes "p < length (df_columns df)" "length (svalues (df_columns df ! p)) = nrows df"
  shows "map (\<lambda>r. snd r ! p) (rows df) = svalues (df_columns df ! p)"
  using assms by (auto simp: rows_def row_at_def list_eq_iff_nth_eq)

lemma length_rows: "length (rows df) = nrows df"
  by (simp add: rows_def)

lemma row_cell_mem:
  assumes "p < length (df_columns df)" "length (svalues (df_columns df ! p)) = nrows df"
    and "r \<in> set (rows df)"
  shows "snd r ! p \<in> set (svalues (df_columns df ! p))"
proof -
  from assms(3) have "snd r ! p \<in> set (map (\<lambda>r. snd r ! p) (rows df))" by simp
  then show ?thesis by (simp only: rows_cells [OF assms(1,2)])
qed

lemma numeric_column_cells:
  assumes wf: "wf_df df" and c: "c \<in> set (numeric_cols df)"
    and p: "column_pos c (df_columns df) = Some p" and r: "r \<in> set (rows df)"
  shows "(\<exists>n. snd r ! p = I n) \<or> (\<exists>x. snd r ! p = F x)"
proof -
  from numeric_column [OF wf c] p obtain s where
    s: "p < length (df_columns df)" "df_columns df ! p = s" "sdtype s \<in> {Int64, Float64, Timedelta64}"
       "length (svalues s) = nrows df"
    by auto
  have "s \<in> set (df_columns df)" using s(1,2) by auto
  with wf have "\<forall>v \<in> set (svalues s). wf_cell (sdtype s) v"
    by (auto simp: wf_df_def wf_series_def list_all_iff)
  moreover have "snd r ! p \<in> set (svalues s)"
    using row_cell_mem [of p df r] s(1,2,4) r by simp
  ultimately show ?thesis using wf_number_cell [OF s(3)] by blast
qed

lemma in_range_interval:
  "(\<exists>n. v = I n) \<or> (\<exists>x. v = F x) \<Longrightarrow> in_range (Fin lo) (Fin hi) v = in_interval lo hi v"
proof (elim disjE exE)
  fix n assume "v = I n"
  then show ?thesis by (simp add: in_range_def)
next
  fix x assume "v = F x"
  then show ?thesis by (cases x) (simp_all add: in_range_def)
qed

text \<open>
  C1 (amended). Filter soundness and completeness, by the double the comparison sees. For
  a frame as loaded, a filter column among the numeric columns and finite bounds, the range
  filter returns, and the rows of the filtered view are exactly the rows of the frame, in
  their order, whose cell in the filter column is not missing and lies between the bounds,
  where an integer cell counts by the double it converts to: itself when it is below
  \<open>2 ^ 53\<close> in magnitude, the nearest double otherwise. A row whose cell in the filter
  column is missing is not in the view.
\<close>

theorem filter_sound_complete:
  assumes wf: "wf_df df" and c: "num_column \<in> set (numeric_cols df)"
  shows "\<exists>fv p. range_filter df num_column (Fin lo, Fin hi) = Inr fv \<and>
           column_pos num_column (df_columns df) = Some p \<and>
           rows fv = filter (\<lambda>r. in_interval lo hi (snd r ! p)) (rows df) \<and>
           (\<forall>r \<in> set (rows df). snd r ! p = F NaN \<longrightarrow> r \<notin> set (rows fv)) \<and>
           (\<forall>n. \<bar>n\<bar> < 2 ^ 53 \<longrightarrow>
              in_interval lo hi (I n) = (lo \<le> of_int n \<and> of_int n \<le> hi))"
proof -
  from range_filter_rows [OF wf c, of "Fin lo" "Fin hi"] obtain fv p where
    fv: "range_filter df num_column (Fin lo, Fin hi) = Inr fv"
        "column_pos num_column (df_columns df) = Some p"
        "rows fv = filter (\<lambda>r. in_range (Fin lo) (Fin hi) (snd r ! p)) (rows df)"
    by blast
  have "filter (\<lambda>r. in_range (Fin lo) (Fin hi) (snd r ! p)) (rows df) =
        filter (\<lambda>r. in_interval lo hi (snd r ! p)) (rows df)"
    by (rule filter_cong [OF refl])
      (use numeric_column_cells [OF wf c fv(2)] in_range_interval in blast)
  with fv(3) have eq: "rows fv = filter (\<lambda>r. in_interval lo hi (snd r ! p)) (rows df)"
    by simp
  then have "\<forall>r \<in> set (rows df). snd r ! p = F NaN \<longrightarrow> r \<notin> set (rows fv)"
    by auto
  moreover have "\<forall>n. \<bar>n\<bar> < 2 ^ 53 \<longrightarrow>
      in_interval lo hi (I n) = (lo \<le> of_int n \<and> of_int n \<le> hi)"
    by (simp add: double_of_int_small)
  ultimately show ?thesis using fv(1,2) eq by blast
qed

theorem filter_sound_complete_witness:
  "wf_df scenario_df \<and> ''age'' \<in> set (numeric_cols scenario_df) \<and>
   range_filter scenario_df ''age'' (Fin 25, Fin 45) =
     Inr \<lparr>df_index = [1, 2], df_columns =
       [\<lparr>sname = ''age'', sdtype = Int64, svalues = [I 30, I 40]\<rparr>,
        \<lparr>sname = ''city'', sdtype = Object, svalues = [S ''NY'', S ''LA'']\<rparr>]\<rparr> \<and>
   column_pos ''age'' (df_columns scenario_df) = Some 0 \<and>
   rows scenario_df =
     [(0, [I 20, S ''NY'']), (1, [I 30, S ''NY'']), (2, [I 40, S ''LA'']), (3, [I 50, S ''SF''])] \<and>
   filter (\<lambda>r. in_interval 25 45 (snd r ! 0)) (rows scenario_df) =
     [(1, [I 30, S ''NY'']), (2, [I 40, S ''LA''])] \<and>
   (\<exists>fv. range_filter scenario_df ''age'' (Fin 25, Fin 45) = Inr fv \<and>
      rows fv = [(1, [I 30, S ''NY'']), (2, [I 40, S ''LA''])])"
proof -
  have h1: "wf_df scenario_df"
    by (simp add: scenario_df_def wf_df_def wf_series_def)
  have h2: "''age'' \<in> set (numeric_cols scenario_df)"
    by (simp add: scenario_df_def numeric_cols_def columns_def select_dtypes_def number_def)
  have e: "range_filter scenario_df ''age'' (Fin 25, Fin 45) =
     Inr \<lparr>df_index = [1, 2], df_columns =
       [\<lparr>sname = ''age'', sdtype = Int64, svalues = [I 30, I 40]\<rparr>,
        \<lparr>sname = ''city'', sdtype = Object, svalues = [S ''NY'', S ''LA'']\<rparr>]\<rparr>"
    by (simp add: scenario_df_def range_filter_def getitem_def series_ge_def series_le_def
        fge_def mask_and_def getitem_mask_def nrows_def select_def double_of_int_small)
  have p: "column_pos ''age'' (df_columns scenario_df) = Some 0"
    by (simp add: scenario_df_def)
  have upt: "[0..<4] = [0, 1, 2, 3]" by (simp add: upt_rec)
  have r: "rows scenario_df =
     [(0, [I 20, S ''NY'']), (1, [I 30, S ''NY'']), (2, [I 40, S ''LA'']), (3, [I 50, S ''SF''])]"
    by (simp add: scenario_df_def rows_def row_at_def nrows_def upt)
  have f: "filter (\<lambda>r. in_interval 25 45 (snd r ! 0)) (rows scenario_df) =
     [(1, [I 30, S ''NY'']), (2, [I 40, S ''LA''])]"
    unfolding r by (simp add: double_of_int_small)
  from filter_sound_complete [OF h1 h2, of 25 45] p f
  have "\<exists>fv. range_filter scenario_df ''age'' (Fin 25, Fin 45) = Inr fv \<and>
      rows fv = [(1, [I 30, S ''NY'']), (2, [I 40, S ''LA''])]"
    by auto
  with h1 h2 e p r f show ?thesis by simp
qed

theorem exact_bound_counterexample:
  "wf_df big_int_df \<and> ''x'' \<in> set (numeric_cols big_int_df) \<and>
   range_filter big_int_df ''x'' (Fin 0, Fin 9007199254740992) =
     Inr \<lparr>df_index = [0, 1], df_columns =
       [\<lparr>sname = ''x'', sdtype = Int64, svalues = [I 0, I 9007199254740993]\<rparr>]\<rparr> \<and>
   \<not> ((of_int 9007199254740993 :: real) \<le> 9007199254740992)"
  by (simp add: big_int_df_def wf_df_def wf_series_def numeric_cols_def columns_def
      select_dtypes_def number_def range_filter_def getitem_def series_ge_def series_le_def
      fge_def mask_and_def getitem_mask_def nrows_def select_def double_of_int_small
      double_of_int_big)

subsection \<open>Minimum, maximum and the full range\<close>

lemma fle_refl: "x \<noteq> NaN \<Longrightarrow> fle x x"
  by (cases x) simp_all

lemma fle_total: "x \<noteq> NaN \<Longrightarrow> y \<noteq> NaN \<Longrightarrow> fle x y \<or> fle y x"
  by (cases x; cases y) auto

lemma fle_trans: "fle x y \<Longrightarrow> fle y z \<Longrightarrow> fle x z"
  by (cases x; cases y; cases z) auto

lemma fold_fmin_lower:
  "y \<noteq> NaN \<Longrightarrow> \<forall>a \<in> set ys. a \<noteq> NaN \<Longrightarrow>
     fold fmin ys y \<noteq> NaN \<and> fle (fold fmin ys y) y \<and> (\<forall>a \<in> set ys. fle (fold fmin ys y) a)"
proof (induction ys arbitrary: y)
  case Nil
  then show ?case by (simp add: fle_refl)
next
  case (Cons b ys)
  have nb: "b \<noteq> NaN" using Cons.prems by simp
  have m: "fmin b y \<noteq> NaN" using nb Cons.prems(1) by (simp add: fmin_def)
  have my: "fle (fmin b y) y" and mb: "fle (fmin b y) b"
    using fle_total [OF nb Cons.prems(1)] fle_refl nb Cons.prems(1) by (auto simp: fmin_def)
  from Cons.IH [OF m] Cons.prems(2)
  have ih: "fold fmin ys (fmin b y) \<noteq> NaN" "fle (fold fmin ys (fmin b y)) (fmin b y)"
    "\<forall>a \<in> set ys. fle (fold fmin ys (fmin b y)) a" by auto
  show ?case using ih fle_trans [OF ih(2) my] fle_trans [OF ih(2) mb] by simp
qed

lemma fold_fmax_upper:
  "y \<noteq> NaN \<Longrightarrow> \<forall>a \<in> set ys. a \<noteq> NaN \<Longrightarrow>
     fold fmax ys y \<noteq> NaN \<and> fle y (fold fmax ys y) \<and> (\<forall>a \<in> set ys. fle a (fold fmax ys y))"
proof (induction ys arbitrary: y)
  case Nil
  then show ?case by (simp add: fle_refl)
next
  case (Cons b ys)
  have nb: "b \<noteq> NaN" using Cons.prems by simp
  have m: "fmax b y \<noteq> NaN" using nb Cons.prems(1) by (simp add: fmax_def)
  have my: "fle y (fmax b y)" and mb: "fle b (fmax b y)"
    using fle_total [OF nb Cons.prems(1)] fle_refl nb Cons.prems(1) by (auto simp: fmax_def)
  from Cons.IH [OF m] Cons.prems(2)
  have ih: "fold fmax ys (fmax b y) \<noteq> NaN" "fle (fmax b y) (fold fmax ys (fmax b y))"
    "\<forall>a \<in> set ys. fle a (fold fmax ys (fmax b y))" by auto
  show ?case using ih fle_trans [OF my ih(2)] fle_trans [OF mb ih(2)] by simp
qed

lemma nanmin_lower: "x \<in> set xs \<Longrightarrow> x \<noteq> NaN \<Longrightarrow> fle (nanmin xs) x"
proof -
  assume x: "x \<in> set xs" "x \<noteq> NaN"
  then have mem: "x \<in> set (filter notna xs)" by (simp add: notna_def)
  then obtain y ys where e: "filter notna xs = y # ys" by (cases "filter notna xs") auto
  have "\<forall>a \<in> set (y # ys). a \<noteq> NaN"
    using e [symmetric] by (auto simp: notna_def)
  then have "fle (fold fmin ys y) y \<and> (\<forall>a \<in> set ys. fle (fold fmin ys y) a)"
    using fold_fmin_lower [of y ys] by simp
  then have all: "\<forall>a \<in> set (y # ys). fle (fold fmin ys y) a" by simp
  have xm: "x \<in> set (y # ys)" using mem e by simp
  have "nanmin xs = fold fmin ys y" using e by (simp add: nanmin_def)
  with all xm show ?thesis by metis
qed

lemma nanmax_upper: "x \<in> set xs \<Longrightarrow> x \<noteq> NaN \<Longrightarrow> fle x (nanmax xs)"
proof -
  assume x: "x \<in> set xs" "x \<noteq> NaN"
  then have mem: "x \<in> set (filter notna xs)" by (simp add: notna_def)
  then obtain y ys where e: "filter notna xs = y # ys" by (cases "filter notna xs") auto
  have "\<forall>a \<in> set (y # ys). a \<noteq> NaN"
    using e [symmetric] by (auto simp: notna_def)
  then have "fle y (fold fmax ys y) \<and> (\<forall>a \<in> set ys. fle a (fold fmax ys y))"
    using fold_fmax_upper [of y ys] by simp
  then have all: "\<forall>a \<in> set (y # ys). fle a (fold fmax ys y)" by simp
  have xm: "x \<in> set (y # ys)" using mem e by simp
  have "nanmax xs = fold fmax ys y" using e by (simp add: nanmax_def)
  with all xm show ?thesis by metis
qed

lemma nanmin_all_missing: "\<forall>x \<in> set xs. x = NaN \<Longrightarrow> nanmin xs = NaN"
  by (simp add: nanmin_def notna_def filter_empty_conv [THEN iffD2])


lemma nanmax_all_missing: "\<forall>x \<in> set xs. x = NaN \<Longrightarrow> nanmax xs = NaN"
  by (simp add: nanmax_def notna_def filter_empty_conv [THEN iffD2])

lemma floats_of_nth:
  "floats_of vs = Inr xs \<Longrightarrow> i < length vs \<Longrightarrow> to_float (vs ! i) = Inr (xs ! i)"
  using floats_of_Inr [of vs xs] floats_of_length [of vs xs]
  by (metis nth_map)

lemma in_range_full:
  assumes f: "floats_of vs = Inr xs" and v: "v \<in> set vs"
  shows "in_range (nanmin xs) (nanmax xs) v \<longleftrightarrow> v \<noteq> F NaN"
proof -
  from v obtain i where i: "i < length vs" "vs ! i = v" by (auto simp: in_set_conv_nth)
  then have tf: "to_float v = Inr (xs ! i)" using floats_of_nth [OF f] by auto
  have xi: "xs ! i \<in> set xs" using i floats_of_length [OF f] by simp
  show ?thesis
  proof (cases "xs ! i = NaN")
    case True
    with tf have "v = F NaN" by (cases v) (auto split: if_splits)
    then show ?thesis by (simp add: in_range_def)
  next
    case False
    then have "v \<noteq> F NaN" using tf by auto
    moreover have "in_range (nanmin xs) (nanmax xs) v"
      using tf False nanmin_lower [OF xi False] nanmax_upper [OF xi False]
      by (simp add: in_range_def)
    ultimately show ?thesis by simp
  qed
qed


lemma full_range_rows:
  assumes wf: "wf_df df" and c: "num_column \<in> set (numeric_cols df)"
  shows "\<exists>lo hi fv p. min_val df num_column = Inr lo \<and> max_val df num_column = Inr hi \<and>
           range_filter df num_column (lo, hi) = Inr fv \<and>
           column_pos num_column (df_columns df) = Some p \<and>
           rows fv = filter (\<lambda>r. snd r ! p \<noteq> F NaN) (rows df) \<and>
           nrows fv = length (filter (\<lambda>v. v \<noteq> F NaN) (svalues (df_columns df ! p))) \<and>
           (F NaN \<notin> set (svalues (df_columns df ! p)) \<longrightarrow> rows fv = rows df \<and> nrows fv = nrows df)"
proof -
  from numeric_column [OF wf c] obtain p s xs where
    p: "column_pos num_column (df_columns df) = Some p" "p < length (df_columns df)"
       "df_columns df ! p = s" "getitem df num_column = Inr s" "length (svalues s) = nrows df"
       "floats_of (svalues s) = Inr xs"
    by blast
  define lo where "lo = nanmin xs"
  define hi where "hi = nanmax xs"
  have mn: "min_val df num_column = Inr lo" and mx: "max_val df num_column = Inr hi"
    using p(4) p(6) by (simp_all add: min_val_def max_val_def series_min_def series_max_def lo_def hi_def)
  from range_filter_rows [OF wf c, of lo hi] p(1) obtain fv where
    fv: "range_filter df num_column (lo, hi) = Inr fv"
        "rows fv = filter (\<lambda>r. in_range lo hi (snd r ! p)) (rows df)"
    by auto
  have cells: "map (\<lambda>r. snd r ! p) (rows df) = svalues s"
    using rows_cells [of p df] p(2) p(3) p(5) by simp
  have mem: "snd r ! p \<in> set (svalues s)" if "r \<in> set (rows df)" for r
  proof -
    from that have "snd r ! p \<in> set (map (\<lambda>r. snd r ! p) (rows df))" by simp
    then show ?thesis by (simp only: cells)
  qed
  have "filter (\<lambda>r. in_range lo hi (snd r ! p)) (rows df) = filter (\<lambda>r. snd r ! p \<noteq> F NaN) (rows df)"
    by (rule filter_cong) (auto simp: lo_def hi_def in_range_full [OF p(6)] dest: mem)
  then have r: "rows fv = filter (\<lambda>r. snd r ! p \<noteq> F NaN) (rows df)"
    using fv(2) by simp
  have "nrows fv = length (rows fv)" by (simp add: length_rows)
  also have "\<dots> = length (filter (\<lambda>v. v \<noteq> F NaN) (map (\<lambda>r. snd r ! p) (rows df)))"
    unfolding r by (simp add: filter_map o_def)
  also have "\<dots> = length (filter (\<lambda>v. v \<noteq> F NaN) (svalues (df_columns df ! p)))"
    using cells p(3) by simp
  finally have n: "nrows fv = length (filter (\<lambda>v. v \<noteq> F NaN) (svalues (df_columns df ! p)))" .
  have "rows fv = rows df \<and> nrows fv = nrows df" if "F NaN \<notin> set (svalues (df_columns df ! p))"
  proof -
    have "\<forall>r \<in> set (rows df). snd r ! p \<noteq> F NaN" using that mem p(3) by metis
    then have "rows fv = rows df" using r by simp
    moreover have "filter (\<lambda>v. v \<noteq> F NaN) (svalues s) = svalues s"
      using that p(3) by (auto simp: filter_id_conv)
    then have "nrows fv = nrows df" using n p(3) p(5) by simp
    ultimately show ?thesis by simp
  qed
  with mn mx fv(1) p(1) r n show ?thesis by blast
qed


text \<open>
  C2 (amended). When the bounds are the minimum and the maximum of the filter column, as
  the slider offers them at first, the filtered view holds exactly the rows whose cell in
  that column is not missing: its row count is the number of non-missing entries of the
  column, and it equals the row count of the frame when the column has no missing entry.
\<close>

theorem full_range_filter:
  assumes wf: "wf_df df" and c: "num_column \<in> set (numeric_cols df)"
  shows "\<exists>lo hi fv p. min_val df num_column = Inr lo \<and> max_val df num_column = Inr hi \<and>
           range_filter df num_column (lo, hi) = Inr fv \<and>
           column_pos num_column (df_columns df) = Some p \<and>
           rows fv = filter (\<lambda>r. snd r ! p \<noteq> F NaN) (rows df) \<and>
           nrows fv = length (filter (\<lambda>v. v \<noteq> F NaN) (svalues (df_columns df ! p))) \<and>
           (F NaN \<notin> set (svalues (df_columns df ! p)) \<longrightarrow> rows fv = rows df \<and> nrows fv = nrows df)"
  using full_range_rows [OF wf c] .

theorem full_range_filter_witness:
  "wf_df scenario_df \<and> ''age'' \<in> set (numeric_cols scenario_df) \<and>
   min_val scenario_df ''age'' = Inr (Fin 20) \<and> max_val scenario_df ''age'' = Inr (Fin 50) \<and>
   F NaN \<notin> set (svalues (df_columns scenario_df ! 0)) \<and>
   (\<exists>fv. range_filter scenario_df ''age'' (Fin 20, Fin 50) = Inr fv \<and>
      rows fv = rows scenario_df \<and> nrows fv = nrows scenario_df)"
proof -
  have h1: "wf_df scenario_df"
    by (simp add: scenario_df_def wf_df_def wf_series_def)
  have h2: "''age'' \<in> set (numeric_cols scenario_df)"
    by (simp add: scenario_df_def numeric_cols_def columns_def select_dtypes_def number_def)
  have mn: "min_val scenario_df ''age'' = Inr (Fin 20)"
    by (simp add: scenario_df_def min_val_def getitem_def series_min_def nanmin_def notna_def fmin_def
        double_of_int_small)
  have mx: "max_val scenario_df ''age'' = Inr (Fin 50)"
    by (simp add: scenario_df_def max_val_def getitem_def series_max_def nanmax_def notna_def fmax_def
        double_of_int_small)
  have p0: "column_pos ''age'' (df_columns scenario_df) = Some 0"
    by (simp add: scenario_df_def)
  have nm: "F NaN \<notin> set (svalues (df_columns scenario_df ! 0))"
    by (simp add: scenario_df_def)
  from full_range_filter [OF h1 h2] mn mx p0 nm
  have "\<exists>fv. range_filter scenario_df ''age'' (Fin 20, Fin 50) = Inr fv \<and>
      rows fv = rows scenario_df \<and> nrows fv = nrows scenario_df"
    by auto
  with h1 h2 mn mx nm show ?thesis by simp
qed

theorem full_range_row_count_counterexample:
  "wf_df missing_df \<and> ''score'' \<in> set (numeric_cols missing_df) \<and>
   min_val missing_df ''score'' = Inr (Fin 1) \<and> max_val missing_df ''score'' = Inr (Fin 3) \<and>
   range_filter missing_df ''score'' (Fin 1, Fin 3) =
     Inr \<lparr>df_index = [0, 2], df_columns =
       [\<lparr>sname = ''score'', sdtype = Float64, svalues = [F (Fin 1), F (Fin 3)]\<rparr>,
        \<lparr>sname = ''tag'', sdtype = Object, svalues = [S ''a'', S ''a'']\<rparr>]\<rparr> \<and>
   nrows \<lparr>df_index = [0, 2], df_columns =
       [\<lparr>sname = ''score'', sdtype = Float64, svalues = [F (Fin 1), F (Fin 3)]\<rparr>,
        \<lparr>sname = ''tag'', sdtype = Object, svalues = [S ''a'', S ''a'']\<rparr>]\<rparr> = 2 \<and>
   nrows missing_df = 3"
  by (simp add: missing_df_def wf_df_def wf_series_def numeric_cols_def columns_def
      select_dtypes_def number_def min_val_def max_val_def getitem_def series_min_def
      series_max_def nanmin_def nanmax_def notna_def fmin_def fmax_def range_filter_def
      series_ge_def series_le_def fge_def mask_and_def getitem_mask_def nrows_def select_def)

subsection \<open>The run of the script\<close>

lemma cat_cols_subset: "set (cat_cols df) \<subseteq> set (columns df)"
  by (auto simp: cat_cols_def columns_def select_dtypes_def)

lemma getitem_total:
  "c \<in> set (columns df) \<Longrightarrow> \<exists>s. getitem df c = Inr s \<and> s \<in> set (df_columns df) \<and> sname s = c"
proof -
  assume "c \<in> set (columns df)"
  then obtain p where p: "column_pos c (df_columns df) = Some p"
    using column_pos_mem [of c "df_columns df"] by (auto simp: columns_def)
  from column_pos_Some [OF p] p show ?thesis by (simp add: getitem_def)
qed

lemma subseq_select: "subseq (select m xs) xs"
proof (induction xs arbitrary: m)
  case Nil
  then show ?case by simp
next
  case (Cons x xs)
  then show ?case by (cases m) auto
qed

lemma set_select: "set (select m xs) \<subseteq> set xs"
proof (induction xs arbitrary: m)
  case Nil
  then show ?case by simp
next
  case (Cons x xs)
  then show ?case by (cases m) auto
qed

lemma distinct_select: "distinct xs \<Longrightarrow> distinct (select m xs)"
proof (induction xs arbitrary: m)
  case Nil
  then show ?case by simp
next
  case (Cons x xs)
  then show ?case using set_select [of _ xs] by (cases m) auto
qed

lemma getitem_mask_props:
  assumes wf: "wf_df df" and g: "getitem_mask df m = Inr fv"
  shows "wf_df fv \<and> columns fv = columns df \<and>
         map sdtype (df_columns fv) = map sdtype (df_columns df) \<and>
         subseq (rows fv) (rows df)"
proof -
  from g have len: "length m = nrows df" by (simp add: getitem_mask_def split: if_splits)
  from rows_getitem_mask [OF wf len] g have
    r: "rows fv = select m (rows df)" "columns fv = columns df"
       "map sdtype (df_columns fv) = map sdtype (df_columns df)" by auto
  from g len have fv: "fv = \<lparr>df_index = select m (df_index df),
      df_columns = map (\<lambda>c. c\<lparr>svalues := select m (svalues c)\<rparr>) (df_columns df)\<rparr>"
    by (simp add: getitem_mask_def)
  have d1: "distinct (df_index fv)" using wf by (simp add: fv wf_df_def distinct_select)
  have d2: "distinct (map sname (df_columns fv))"
    using wf r(2) by (simp add: wf_df_def columns_def)
  have "wf_series (length (df_index fv)) c'" if "c' \<in> set (df_columns fv)" for c'
  proof -
    from that obtain c where c: "c \<in> set (df_columns df)" "c' = c\<lparr>svalues := select m (svalues c)\<rparr>"
      by (auto simp: fv)
    from wf c(1) have w: "length (svalues c) = length (df_index df)"
      "\<forall>v \<in> set (svalues c). wf_cell (sdtype c) v"
      by (auto simp: wf_df_def wf_series_def list_all_iff)
    have "length (select m (svalues c)) = length (select m (df_index df))"
      using w(1) by (rule length_select_same)
    moreover have "\<forall>v \<in> set (select m (svalues c)). wf_cell (sdtype c) v"
      using w(2) set_select [of m "svalues c"] by auto
    ultimately show ?thesis by (simp add: c(2) fv wf_series_def list_all_iff)
  qed
  then have "wf_df fv" using d1 d2 by (simp add: wf_df_def list_all_iff)
  moreover have "subseq (rows fv) (rows df)" unfolding r(1) by (rule subseq_select)
  ultimately show ?thesis using r(2,3) by simp
qed

lemma range_filter_props:
  assumes wf: "wf_df df" and g: "range_filter df c rng = Inr fv"
  shows "wf_df fv \<and> columns fv = columns df \<and>
         map sdtype (df_columns fv) = map sdtype (df_columns df) \<and>
         subseq (rows fv) (rows df)"
proof -
  from g obtain m where "getitem_mask df m = Inr fv"
    by (auto simp: range_filter_def split: sum.splits)
  with wf show ?thesis by (rule getitem_mask_props)
qed

lemma numeric_cols_same:
  "columns fv = columns df \<Longrightarrow> map sdtype (df_columns fv) = map sdtype (df_columns df) \<Longrightarrow>
     numeric_cols fv = numeric_cols df"
proof -
  assume a: "columns fv = columns df" "map sdtype (df_columns fv) = map sdtype (df_columns df)"
  have g: "map sname (filter (\<lambda>c. sdtype c \<in> A) cs) = map sname (filter (\<lambda>c. sdtype c \<in> A) ds)"
    if "map sname cs = map sname ds" "map sdtype cs = map sdtype ds" for cs ds :: "series list" and A
    using that
  proof (induction cs arbitrary: ds)
    case Nil
    then show ?case by simp
  next
    case (Cons c cs)
    then obtain d ds' where "ds = d # ds'" by (cases ds) auto
    with Cons show ?case by auto
  qed
  show ?thesis using g [of "df_columns fv" "df_columns df" "set number"] a
    by (simp add: numeric_cols_def columns_def select_dtypes_def)
qed

lemma filtered_df_props:
  assumes wf: "wf_df df" and g: "filtered_df w df = Inr fv"
  shows "wf_df fv \<and> columns fv = columns df \<and>
         map sdtype (df_columns fv) = map sdtype (df_columns df) \<and>
         subseq (rows fv) (rows df) \<and> numeric_cols fv = numeric_cols df"
proof -
  have "wf_df fv \<and> columns fv = columns df \<and>
         map sdtype (df_columns fv) = map sdtype (df_columns df) \<and>
         subseq (rows fv) (rows df)"
  proof (cases "numeric_cols df = []")
    case True
    with g have "fv = df" by (simp add: filtered_df_def copy_def)
    with wf show ?thesis by simp
  next
    case False
    with g obtain c rng where "range_filter df c rng = Inr fv"
      by (auto simp: filtered_df_def split: option.splits sum.splits)
    with wf show ?thesis by (rule range_filter_props)
  qed
  then show ?thesis using numeric_cols_same by blast
qed


lemma filtered_df_returns:
  assumes wf: "wf_df df" and k: "num_choice w < length (numeric_cols df)"
    and mn: "min_val df (numeric_cols df ! num_choice w) = Inr (Fin a)"
    and mx: "max_val df (numeric_cols df ! num_choice w) = Inr (Fin b)"
    and ab: "a < b"
    and rng: "fle (Fin a) (fst (selected_range w))"
             "fle (fst (selected_range w)) (snd (selected_range w))"
             "fle (snd (selected_range w)) (Fin b)"
  shows "\<exists>fv. filtered_df w df = Inr fv \<and>
           range_filter df (numeric_cols df ! num_choice w) (selected_range w) = Inr fv"
proof -
  define c where "c = numeric_cols df ! num_choice w"
  have c: "c \<in> set (numeric_cols df)" using k by (simp add: c_def)
  have sb: "selectbox (num_choice w) (numeric_cols df) = Some c"
    using k by (simp add: selectbox_def c_def)
  have sl: "slider (Fin a) (Fin b) (selected_range w) = Inr (selected_range w)"
    using ab rng by (simp add: slider_def)
  from range_filter_rows [OF wf c, of "fst (selected_range w)" "snd (selected_range w)"]
  obtain fv where fv: "range_filter df c (selected_range w) = Inr fv" by auto
  have ne: "numeric_cols df \<noteq> []" using k by auto
  have "filtered_df w df = Inr fv"
    using ne sb mn mx sl fv by (simp add: filtered_df_def c_def [symmetric])
  with fv show ?thesis by (auto simp: c_def)
qed

lemma getitem_list_numeric:
  assumes wf: "wf_df fv"
  shows "set ks \<subseteq> set (numeric_cols fv) \<Longrightarrow>
     \<exists>sub xss. getitem_list fv ks = Inr sub \<and> map sname sub = ks \<and>
        floats_of_all sub = Inr xss \<and> length sub = length ks \<and> length xss = length ks \<and>
        (\<forall>i < length ks. getitem fv (ks ! i) = Inr (sub ! i) \<and>
            floats_of (svalues (sub ! i)) = Inr (xss ! i))"
proof (induction ks)
  case Nil
  then show ?case by simp
next
  case (Cons k ks)
  then obtain sub xss where ih: "getitem_list fv ks = Inr sub" "map sname sub = ks"
    "floats_of_all sub = Inr xss" "length sub = length ks" "length xss = length ks"
    "\<forall>i < length ks. getitem fv (ks ! i) = Inr (sub ! i) \<and>
        floats_of (svalues (sub ! i)) = Inr (xss ! i)"
    by auto
  from Cons.prems have "k \<in> set (numeric_cols fv)" by simp
  from numeric_column [OF wf this] obtain s xs where
    s: "getitem fv k = Inr s" "sname s = k" "floats_of (svalues s) = Inr xs" by blast
  have "\<forall>i < length (k # ks). getitem fv ((k # ks) ! i) = Inr ((s # sub) ! i) \<and>
        floats_of (svalues ((s # sub) ! i)) = Inr ((xs # xss) ! i)"
    using s ih(6) by (auto simp: nth_Cons split: nat.splits)
  then show ?case using s ih(1-5) by auto
qed

lemma numeric_visualizations_run:
  assumes wf: "wf_df fv" and n: "numeric_cols fv = numeric_cols df"
  shows "\<exists>o1. numeric_visualizations df fv = Inr o1 \<and>
     (length (numeric_cols df) \<ge> 2 \<longrightarrow> (\<exists>m. o1 = [Corr_heatmap (numeric_cols df) m])) \<and>
     (length (numeric_cols df) = 1 \<longrightarrow>
        o1 = [Info ''At least two numeric columns are required for correlation analysis.'']) \<and>
     (numeric_cols df = [] \<longrightarrow> o1 = [])"
proof -
  from getitem_list_numeric [OF wf, of "numeric_cols df"] n obtain sub xss where
    "getitem_list fv (numeric_cols df) = Inr sub" "map sname sub = numeric_cols df"
    "floats_of_all sub = Inr xss" by auto
  then show ?thesis by (auto simp: numeric_visualizations_def corr_def)
qed

lemma cat_column_total:
  assumes v: "valid_widgets w df"
  shows "\<exists>cc. cat_column w df = Inr cc \<and> (\<forall>c. cc = Some c \<longrightarrow> c \<in> set (cat_cols df))"
proof (cases "cat_cols df = []")
  case True
  then show ?thesis by (simp add: cat_column_def)
next
  case False
  with v have k: "cat_choice w < length (cat_cols df)" by (simp add: valid_widgets_def)
  then show ?thesis using False by (simp add: cat_column_def selectbox_def)
qed

lemma categorical_analysis_total:
  assumes "columns fv = columns df" "\<forall>c. cc = Some c \<longrightarrow> c \<in> set (cat_cols df)"
  shows "\<exists>o2. categorical_analysis cc fv = Inr o2 \<and>
           (o2 = [] \<or> (\<exists>c vc. o2 = [Value_counts_table c vc]))"
proof (cases cc)
  case None
  then show ?thesis by (simp add: categorical_analysis_def)
next
  case (Some c)
  with assms have "c \<in> set (columns fv)" using cat_cols_subset by auto
  from getitem_total [OF this] obtain s where "getitem fv c = Inr s" by blast
  with Some show ?thesis by (simp add: categorical_analysis_def value_counts_def)
qed

lemma app_run:
  assumes wf: "wf_df df" and v: "valid_widgets w df" and f: "filtered_df w df = Inr fv"
  shows "\<exists>cc o1 o2. cat_column w df = Inr cc \<and>
           numeric_visualizations df fv = Inr o1 \<and> categorical_analysis cc fv = Inr o2 \<and>
           app w df = Inr \<lparr>s_df = df, s_filtered_df = fv,
             s_outputs = filter_outputs df fv @ cat_outputs df @ o1 @ o2\<rparr>"
proof -
  from filtered_df_props [OF wf f] have
    fv: "wf_df fv" "columns fv = columns df" "numeric_cols fv = numeric_cols df" by auto
  from cat_column_total [OF v] obtain cc where
    cc: "cat_column w df = Inr cc" "\<forall>c. cc = Some c \<longrightarrow> c \<in> set (cat_cols df)" by blast
  from numeric_visualizations_run [OF fv(1,3)] obtain o1 where
    o1: "numeric_visualizations df fv = Inr o1" by blast
  from categorical_analysis_total [OF fv(2) cc(2)] obtain o2 where
    o2: "categorical_analysis cc fv = Inr o2" by blast
  show ?thesis using f cc(1) o1 o2 by (simp add: app_def)
qed

subsection \<open>The filtered view and the frame\<close>

text \<open>
  C10. Filtering leaves the frame as it is. For a frame as loaded, whenever the script gets
  to its filtered view, that view has the columns of the frame, by name and dtype and in the
  same order, and its rows are rows of the frame in their original relative order; and the
  frame the script holds at the end of a run is the frame that was loaded.
\<close>

theorem filter_frame:
  assumes wf: "wf_df df" and f: "filtered_df w df = Inr fv"
  shows "columns fv = columns df \<and>
         map sdtype (df_columns fv) = map sdtype (df_columns df) \<and>
         subseq (rows fv) (rows df) \<and>
         (\<forall>s. app w df = Inr s \<longrightarrow> s_df s = df \<and> s_filtered_df s = fv)"
proof -
  have "s_df s = df \<and> s_filtered_df s = fv" if "app w df = Inr s" for s
    using that f by (auto simp: app_def split: sum.splits)
  with filtered_df_props [OF wf f] show ?thesis by blast
qed

theorem filter_frame_witness:
  "wf_df scenario_df \<and>
   filtered_df default_widgets scenario_df =
     Inr \<lparr>df_index = [1, 2], df_columns =
       [\<lparr>sname = ''age'', sdtype = Int64, svalues = [I 30, I 40]\<rparr>,
        \<lparr>sname = ''city'', sdtype = Object, svalues = [S ''NY'', S ''LA'']\<rparr>]\<rparr> \<and>
   columns \<lparr>df_index = [1, 2], df_columns =
       [\<lparr>sname = ''age'', sdtype = Int64, svalues = [I 30, I 40]\<rparr>,
        \<lparr>sname = ''city'', sdtype = Object, svalues = [S ''NY'', S ''LA'']\<rparr>]\<rparr> =
     columns scenario_df \<and>
   subseq (rows \<lparr>df_index = [1, 2], df_columns =
       [\<lparr>sname = ''age'', sdtype = Int64, svalues = [I 30, I 40]\<rparr>,
        \<lparr>sname = ''city'', sdtype = Object, svalues = [S ''NY'', S ''LA'']\<rparr>]\<rparr>)
     (rows scenario_df) \<and>
   app default_widgets scenario_df =
     Inr \<lparr>s_df = scenario_df,
          s_filtered_df = \<lparr>df_index = [1, 2], df_columns =
            [\<lparr>sname = ''age'', sdtype = Int64, svalues = [I 30, I 40]\<rparr>,
             \<lparr>sname = ''city'', sdtype = Object, svalues = [S ''NY'', S ''LA'']\<rparr>]\<rparr>,
          s_outputs =
            [Write_filtered_rows 2,
             Info ''At least two numeric columns are required for correlation analysis.'',
             Value_counts_table ''city'' [(S ''NY'', 1), (S ''LA'', 1)]]\<rparr>"
proof -
  have h1: "wf_df scenario_df"
    by (simp add: scenario_df_def wf_df_def wf_series_def)
  have h2: "filtered_df default_widgets scenario_df =
     Inr \<lparr>df_index = [1, 2], df_columns =
       [\<lparr>sname = ''age'', sdtype = Int64, svalues = [I 30, I 40]\<rparr>,
        \<lparr>sname = ''city'', sdtype = Object, svalues = [S ''NY'', S ''LA'']\<rparr>]\<rparr>"
    by (simp add: scenario_df_def default_widgets_def filtered_df_def numeric_cols_def
        columns_def select_dtypes_def number_def selectbox_def min_val_def max_val_def
        getitem_def series_min_def series_max_def nanmin_def nanmax_def notna_def fmin_def
        fmax_def slider_def range_filter_def series_ge_def series_le_def
        fge_def mask_and_def getitem_mask_def nrows_def select_def double_of_int_small)
  have h3: "app default_widgets scenario_df =
     Inr \<lparr>s_df = scenario_df,
          s_filtered_df = \<lparr>df_index = [1, 2], df_columns =
            [\<lparr>sname = ''age'', sdtype = Int64, svalues = [I 30, I 40]\<rparr>,
             \<lparr>sname = ''city'', sdtype = Object, svalues = [S ''NY'', S ''LA'']\<rparr>]\<rparr>,
          s_outputs =
            [Write_filtered_rows 2,
             Info ''At least two numeric columns are required for correlation analysis.'',
             Value_counts_table ''city'' [(S ''NY'', 1), (S ''LA'', 1)]]\<rparr>"
    unfolding app_def h2
    by (simp add: scenario_df_def default_widgets_def numeric_cols_def cat_cols_def
        columns_def select_dtypes_def number_def cat_column_def selectbox_def
        numeric_visualizations_def categorical_analysis_def value_counts_def getitem_def
        series_value_counts_def sort_values_desc_def tally_def isna_def filter_outputs_def
        cat_outputs_def nrows_def)
  from filter_frame [OF h1 h2] h1 h2 h3 show ?thesis by simp
qed

text \<open>
  C6. With no numeric column the filtered view is the frame itself: \<^verbatim>\<open>filtered_df\<close> is
  the copy of the frame, which is not an error, and the script runs to its end with that
  view and shows the warning of this branch.
\<close>

theorem no_numeric_columns_unfiltered:
  assumes n: "numeric_cols df = []"
  shows "filtered_df w df = Inr df \<and>
         filter_outputs df df = [Sidebar_warning ''No numeric columns found for filtering.''] \<and>
         (wf_df df \<and> valid_widgets w df \<longrightarrow>
            (\<exists>s. app w df = Inr s \<and> s_df s = df \<and> s_filtered_df s = df \<and>
               Sidebar_warning ''No numeric columns found for filtering.'' \<in> set (s_outputs s)))"
proof -
  have f: "filtered_df w df = Inr df" using n by (simp add: filtered_df_def copy_def)
  have o: "filter_outputs df df = [Sidebar_warning ''No numeric columns found for filtering.'']"
    using n by (simp add: filter_outputs_def)
  have "\<exists>s. app w df = Inr s \<and> s_df s = df \<and> s_filtered_df s = df \<and>
               Sidebar_warning ''No numeric columns found for filtering.'' \<in> set (s_outputs s)"
    if "wf_df df" "valid_widgets w df"
  proof -
    from app_run [OF that f] obtain o1 o2 where
      "app w df = Inr \<lparr>s_df = df, s_filtered_df = df,
             s_outputs = filter_outputs df df @ cat_outputs df @ o1 @ o2\<rparr>"
      by auto
    then show ?thesis using o by simp
  qed
  with f o show ?thesis by blast
qed

theorem no_numeric_columns_unfiltered_witness:
  "numeric_cols text_df = [] \<and> wf_df text_df \<and> valid_widgets default_widgets text_df \<and>
   filtered_df default_widgets text_df = Inr text_df \<and>
   (\<exists>s. app default_widgets text_df = Inr s \<and> s_df s = text_df \<and> s_filtered_df s = text_df \<and>
      Sidebar_warning ''No numeric columns found for filtering.'' \<in> set (s_outputs s))"
proof -
  have h0: "numeric_cols text_df = []"
    by (simp add: text_df_def numeric_cols_def columns_def select_dtypes_def number_def)
  have h1: "wf_df text_df"
    by (simp add: text_df_def wf_df_def wf_series_def)
  have h2: "valid_widgets default_widgets text_df"
    by (simp add: text_df_def valid_widgets_def default_widgets_def numeric_cols_def
        cat_cols_def columns_def select_dtypes_def number_def)
  from no_numeric_columns_unfiltered [OF h0, of default_widgets] h0 h1 h2 show ?thesis by blast
qed

subsection \<open>The correlation block with fewer than two numeric columns\<close>

lemma no_heatmap:
  assumes n: "length (numeric_cols df) < 2" and a: "app w df = Inr s"
  shows "Corr_heatmap l m \<notin> set (s_outputs s)"
proof -
  from a obtain fv cc o1 o2 where
    r: "numeric_visualizations df fv = Inr o1" "categorical_analysis cc fv = Inr o2"
       "s_outputs s = filter_outputs df fv @ cat_outputs df @ o1 @ o2"
    by (auto simp: app_def split: sum.splits)
  have "Corr_heatmap l m \<notin> set o1"
    using r(1) n by (auto simp: numeric_visualizations_def split: if_splits)
  moreover have "Corr_heatmap l m \<notin> set o2"
    using r(2) by (auto simp: categorical_analysis_def split: option.splits sum.splits)
  ultimately show ?thesis
    by (auto simp: r(3) filter_outputs_def cat_outputs_def)
qed

lemma one_numeric_info:
  assumes wf: "wf_df df" and v: "valid_widgets w df" and n: "length (numeric_cols df) = 1"
    and f: "filtered_df w df = Inr fv"
  shows "\<exists>s. app w df = Inr s \<and> s_filtered_df s = fv \<and>
           Info ''At least two numeric columns are required for correlation analysis.''
             \<in> set (s_outputs s)"
proof -
  from app_run [OF wf v f] obtain o1 o2 where
    r: "numeric_visualizations df fv = Inr o1"
       "app w df = Inr \<lparr>s_df = df, s_filtered_df = fv,
             s_outputs = filter_outputs df fv @ cat_outputs df @ o1 @ o2\<rparr>"
    by blast
  have "o1 = [Info ''At least two numeric columns are required for correlation analysis.'']"
    using r(1) n by (simp add: numeric_visualizations_def)
  with r(2) show ?thesis by simp
qed

lemma no_numeric_no_info:
  assumes wf: "wf_df df" and v: "valid_widgets w df" and n: "numeric_cols df = []"
  shows "\<exists>s. app w df = Inr s \<and>
           Info ''At least two numeric columns are required for correlation analysis.''
             \<notin> set (s_outputs s) \<and>
           Sidebar_warning ''No numeric columns found for filtering.'' \<in> set (s_outputs s)"
proof -
  have f: "filtered_df w df = Inr df" using n by (simp add: filtered_df_def copy_def)
  from app_run [OF wf v f] obtain cc o1 o2 where
    r: "cat_column w df = Inr cc" "numeric_visualizations df df = Inr o1"
       "categorical_analysis cc df = Inr o2"
       "app w df = Inr \<lparr>s_df = df, s_filtered_df = df,
             s_outputs = filter_outputs df df @ cat_outputs df @ o1 @ o2\<rparr>"
    by blast
  have o1: "o1 = []" using r(2) n by (simp add: numeric_visualizations_def)
  have o2: "Info ''At least two numeric columns are required for correlation analysis.'' \<notin> set o2"
    using r(3) by (auto simp: categorical_analysis_def split: option.splits sum.splits)
  show ?thesis using r(4) o1 o2 n by (auto simp: filter_outputs_def cat_outputs_def)
qed

text \<open>
  C5 (amended). With fewer than two numeric columns no run of the script plots a
  correlation. With no numeric column the script runs to its end and shows no message about
  the correlation, only the sidebar warning that there is no numeric column to filter by.
  With exactly one numeric column, whenever the script gets past the range slider to its
  filtered view, it runs to its end and shows the message that at least two numeric columns
  are required; it gets there when the minimum and the maximum of the column are finite and
  differ and the slider answers between them.
\<close>

theorem insufficient_columns:
  assumes wf: "wf_df df" and v: "valid_widgets w df" and n: "length (numeric_cols df) < 2"
  shows "(\<forall>s l m. app w df = Inr s \<longrightarrow> Corr_heatmap l m \<notin> set (s_outputs s)) \<and>
         (numeric_cols df = [] \<longrightarrow>
            (\<exists>s. app w df = Inr s \<and>
               Info ''At least two numeric columns are required for correlation analysis.''
                 \<notin> set (s_outputs s) \<and>
               Sidebar_warning ''No numeric columns found for filtering.''
                 \<in> set (s_outputs s))) \<and>
         (length (numeric_cols df) = 1 \<longrightarrow>
            (\<forall>fv. filtered_df w df = Inr fv \<longrightarrow>
               (\<exists>s. app w df = Inr s \<and> s_filtered_df s = fv \<and>
                  Info ''At least two numeric columns are required for correlation analysis.''
                    \<in> set (s_outputs s))) \<and>
            (\<forall>a b. min_val df (numeric_cols df ! 0) = Inr (Fin a) \<and>
                   max_val df (numeric_cols df ! 0) = Inr (Fin b) \<and> a < b \<and>
                   fle (Fin a) (fst (selected_range w)) \<and>
                   fle (fst (selected_range w)) (snd (selected_range w)) \<and>
                   fle (snd (selected_range w)) (Fin b) \<longrightarrow>
               (\<exists>fv. filtered_df w df = Inr fv)))"
proof -
  have a: "\<forall>s l m. app w df = Inr s \<longrightarrow> Corr_heatmap l m \<notin> set (s_outputs s)"
    using no_heatmap [OF n] by blast
  have b: "numeric_cols df = [] \<longrightarrow>
            (\<exists>s. app w df = Inr s \<and>
               Info ''At least two numeric columns are required for correlation analysis.''
                 \<notin> set (s_outputs s) \<and>
               Sidebar_warning ''No numeric columns found for filtering.''
                 \<in> set (s_outputs s))"
    using no_numeric_no_info [OF wf v] by blast
  have c: "\<forall>fv. filtered_df w df = Inr fv \<longrightarrow>
               (\<exists>s. app w df = Inr s \<and> s_filtered_df s = fv \<and>
                  Info ''At least two numeric columns are required for correlation analysis.''
                    \<in> set (s_outputs s))"
    if "length (numeric_cols df) = 1"
    using one_numeric_info [OF wf v that] by blast
  have d: "\<exists>fv. filtered_df w df = Inr fv"
    if one: "length (numeric_cols df) = 1"
      and h: "min_val df (numeric_cols df ! 0) = Inr (Fin a)"
        "max_val df (numeric_cols df ! 0) = Inr (Fin b)" "a < b"
        "fle (Fin a) (fst (selected_range w))"
        "fle (fst (selected_range w)) (snd (selected_range w))"
        "fle (snd (selected_range w)) (Fin b)"
    for a b
  proof -
    from v one have k: "num_choice w = 0" by (auto simp: valid_widgets_def)
    then have k': "num_choice w < length (numeric_cols df)" using one by simp
    from filtered_df_returns [OF wf k', of a b] h k show ?thesis by auto
  qed
  from a b c d show ?thesis by blast
qed

theorem insufficient_columns_witness:
  "wf_df missing_df \<and> valid_widgets full_widgets missing_df \<and>
   length (numeric_cols missing_df) = 1 \<and>
   app full_widgets missing_df =
     Inr \<lparr>s_df = missing_df,
          s_filtered_df = \<lparr>df_index = [0, 2], df_columns =
            [\<lparr>sname = ''score'', sdtype = Float64, svalues = [F (Fin 1), F (Fin 3)]\<rparr>,
             \<lparr>sname = ''tag'', sdtype = Object, svalues = [S ''a'', S ''a'']\<rparr>]\<rparr>,
          s_outputs =
            [Write_filtered_rows 2,
             Info ''At least two numeric columns are required for correlation analysis.'',
             Value_counts_table ''tag'' [(S ''a'', 2)]]\<rparr> \<and>
   wf_df text_df \<and> valid_widgets default_widgets text_df \<and> numeric_cols text_df = [] \<and>
   (\<exists>s. app default_widgets text_df = Inr s \<and>
      Info ''At least two numeric columns are required for correlation analysis.''
        \<notin> set (s_outputs s) \<and>
      Sidebar_warning ''No numeric columns found for filtering.'' \<in> set (s_outputs s))"
proof -
  have h1: "wf_df missing_df"
    by (simp add: missing_df_def wf_df_def wf_series_def)
  have h2: "valid_widgets full_widgets missing_df"
    by (simp add: missing_df_def valid_widgets_def full_widgets_def numeric_cols_def
        cat_cols_def columns_def select_dtypes_def number_def)
  have h3: "length (numeric_cols missing_df) = 1"
    by (simp add: missing_df_def numeric_cols_def columns_def select_dtypes_def number_def)
  have h4: "filtered_df full_widgets missing_df =
     Inr \<lparr>df_index = [0, 2], df_columns =
            [\<lparr>sname = ''score'', sdtype = Float64, svalues = [F (Fin 1), F (Fin 3)]\<rparr>,
             \<lparr>sname = ''tag'', sdtype = Object, svalues = [S ''a'', S ''a'']\<rparr>]\<rparr>"
    by (simp add: missing_df_def full_widgets_def filtered_df_def numeric_cols_def
        columns_def select_dtypes_def number_def selectbox_def min_val_def max_val_def
        getitem_def series_min_def series_max_def nanmin_def nanmax_def notna_def fmin_def
        fmax_def slider_def range_filter_def series_ge_def series_le_def
        fge_def mask_and_def getitem_mask_def nrows_def select_def)
  have h5: "app full_widgets missing_df =
     Inr \<lparr>s_df = missing_df,
          s_filtered_df = \<lparr>df_index = [0, 2], df_columns =
            [\<lparr>sname = ''score'', sdtype = Float64, svalues = [F (Fin 1), F (Fin 3)]\<rparr>,
             \<lparr>sname = ''tag'', sdtype = Object, svalues = [S ''a'', S ''a'']\<rparr>]\<rparr>,
          s_outputs =
            [Write_filtered_rows 2,
             Info ''At least two numeric columns are required for correlation analysis.'',
             Value_counts_table ''tag'' [(S ''a'', 2)]]\<rparr>"
    unfolding app_def h4
    by (simp add: missing_df_def full_widgets_def numeric_cols_def cat_cols_def
        columns_def select_dtypes_def number_def cat_column_def selectbox_def
        numeric_visualizations_def categorical_analysis_def value_counts_def getitem_def
        series_value_counts_def sort_values_desc_def tally_def isna_def filter_outputs_def
        cat_outputs_def nrows_def)
  have g1: "wf_df text_df"
    by (simp add: text_df_def wf_df_def wf_series_def)
  have g2: "valid_widgets default_widgets text_df"
    by (simp add: text_df_def valid_widgets_def default_widgets_def numeric_cols_def
        cat_cols_def columns_def select_dtypes_def number_def)
  have g3: "numeric_cols text_df = []"
    by (simp add: text_df_def numeric_cols_def columns_def select_dtypes_def number_def)
  from insufficient_columns [OF g1 g2] g3
  have b: "\<exists>s. app default_widgets text_df = Inr s \<and>
      Info ''At least two numeric columns are required for correlation analysis.''
        \<notin> set (s_outputs s) \<and>
      Sidebar_warning ''No numeric columns found for filtering.'' \<in> set (s_outputs s)"
    by auto
  from insufficient_columns [OF h1 h2] h3 h4
  have "\<exists>s. app full_widgets missing_df = Inr s \<and>
      Info ''At least two numeric columns are required for correlation analysis.''
        \<in> set (s_outputs s)"
    by auto
  with h1 h2 h3 h5 g1 g2 g3 b show ?thesis by blast
qed

theorem no_numeric_no_report_counterexample:
  "wf_df text_df \<and> valid_widgets default_widgets text_df \<and>
   length (numeric_cols text_df) < 2 \<and>
   app default_widgets text_df =
     Inr \<lparr>s_df = text_df, s_filtered_df = text_df,
          s_outputs = [Sidebar_warning ''No numeric columns found for filtering.'',
                       Value_counts_table ''city'' [(S ''NY'', 1), (S ''LA'', 1)]]\<rparr> \<and>
   Info ''At least two numeric columns are required for correlation analysis.''
     \<notin> set [Sidebar_warning ''No numeric columns found for filtering.'',
              Value_counts_table ''city'' [(S ''NY'', 1), (S ''LA'', 1)]]"
  by (simp add: text_df_def wf_df_def wf_series_def valid_widgets_def default_widgets_def
      numeric_cols_def cat_cols_def columns_def select_dtypes_def number_def app_def
      filtered_df_def copy_def cat_column_def selectbox_def numeric_visualizations_def
      categorical_analysis_def value_counts_def getitem_def series_value_counts_def
      sort_values_desc_def tally_def isna_def filter_outputs_def cat_outputs_def)

subsection \<open>The classification of columns\<close>

lemma cat_cols_mem:
  "c \<in> set (cat_cols df) \<longleftrightarrow>
     (\<exists>s \<in> set (df_columns df). sname s = c \<and> sdtype s \<in> {Object, Category, Bool})"
  by (auto simp: cat_cols_def columns_def select_dtypes_def)

lemma distinct_names_unique:
  "distinct (map sname cs) \<Longrightarrow> s \<in> set cs \<Longrightarrow> t \<in> set cs \<Longrightarrow> sname s = sname t \<Longrightarrow> s = t"
  by (meson distinct_map inj_onD)

text \<open>
  C9 (amended). The classification goes by the dtype of a column alone. When the column
  names are distinct, no name is both numeric and categorical; a column is numeric exactly
  when its dtype is under numpy's \<^verbatim>\<open>number\<close> (an integer or floating dtype, or
  \<^verbatim>\<open>timedelta64\<close>), and categorical exactly when its dtype is object, category or bool.
  So a boolean column is categorical and not numeric, a \<^verbatim>\<open>datetime64\<close> column is in
  neither set, and a column without rows is classified by its dtype like any other.
\<close>

theorem classification_by_dtype:
  assumes d: "distinct (columns df)"
  shows "set (numeric_cols df) \<inter> set (cat_cols df) = {} \<and>
         (\<forall>s \<in> set (df_columns df).
            (sname s \<in> set (numeric_cols df) \<longleftrightarrow> sdtype s \<in> {Int64, Float64, Timedelta64}) \<and>
            (sname s \<in> set (cat_cols df) \<longleftrightarrow> sdtype s \<in> {Object, Category, Bool}))"
proof -
  have d': "distinct (map sname (df_columns df))" using d by (simp add: columns_def)
  have num: "sname s \<in> set (numeric_cols df) \<longleftrightarrow> sdtype s \<in> {Int64, Float64, Timedelta64}"
    if "s \<in> set (df_columns df)" for s
    using that distinct_names_unique [OF d' _ that] unfolding numeric_cols_mem by metis
  have cat: "sname s \<in> set (cat_cols df) \<longleftrightarrow> sdtype s \<in> {Object, Category, Bool}"
    if "s \<in> set (df_columns df)" for s
    using that distinct_names_unique [OF d' _ that] unfolding cat_cols_mem by metis
  have "c \<notin> set (cat_cols df)" if "c \<in> set (numeric_cols df)" for c
  proof -
    from that obtain s where s: "s \<in> set (df_columns df)" "sname s = c"
      "sdtype s \<in> {Int64, Float64, Timedelta64}"
      by (auto simp: numeric_cols_mem)
    then have "sdtype s \<notin> {Object, Category, Bool}" by auto
    then show ?thesis using cat [OF s(1)] s(2) by simp
  qed
  then have "set (numeric_cols df) \<inter> set (cat_cols df) = {}" by auto
  with num cat show ?thesis by blast
qed

theorem classification_by_dtype_witness:
  "distinct (columns typed_df) \<and>
   set (numeric_cols typed_df) \<inter> set (cat_cols typed_df) = {} \<and>
   numeric_cols typed_df = [''n'', ''x'', ''took''] \<and>
   cat_cols typed_df = [''flag'', ''label''] \<and>
   ''flag'' \<in> set (cat_cols typed_df) \<and> ''flag'' \<notin> set (numeric_cols typed_df) \<and>
   ''when'' \<notin> set (numeric_cols typed_df) \<and> ''when'' \<notin> set (cat_cols typed_df)"
proof -
  have h: "distinct (columns typed_df)"
    by (simp add: typed_df_def columns_def)
  have n: "numeric_cols typed_df = [''n'', ''x'', ''took'']"
    by (simp add: typed_df_def numeric_cols_def columns_def select_dtypes_def number_def)
  have c: "cat_cols typed_df = [''flag'', ''label'']"
    by (simp add: typed_df_def cat_cols_def columns_def select_dtypes_def)
  from classification_by_dtype [OF h]
  have "set (numeric_cols typed_df) \<inter> set (cat_cols typed_df) = {}" by blast
  with h n c show ?thesis by simp
qed

theorem zero_row_column_classified_counterexample:
  "wf_df header_only_df \<and> nrows header_only_df = 0 \<and>
   svalues (df_columns header_only_df ! 0) = [] \<and>
   sname (df_columns header_only_df ! 0) = ''age'' \<and>
   ''age'' \<in> set (cat_cols header_only_df)"
  by (simp add: header_only_df_def wf_df_def wf_series_def nrows_def cat_cols_def columns_def
      select_dtypes_def)

subsection \<open>Aggregates over columns without values\<close>

lemma floats_of_all_missing:
  "floats_of vs = Inr xs \<Longrightarrow> list_all isna vs \<Longrightarrow> \<forall>x \<in> set xs. x = NaN"
  by (induction vs arbitrary: xs) (auto simp: isna_def split: sum.splits)

lemma all_missing_column:
  assumes wf: "wf_df df" and c: "c \<in> set (numeric_cols df)" and a: "all_missing df c"
  shows "min_val df c = Inr NaN \<and> max_val df c = Inr NaN"
proof -
  from numeric_column [OF wf c] obtain s xs where
    p: "getitem df c = Inr s" "floats_of (svalues s) = Inr xs"
    by blast
  from a p(1) have m: "list_all isna (svalues s)" by (simp add: all_missing_def)
  from floats_of_all_missing [OF p(2) m] have x: "\<forall>x \<in> set xs. x = NaN" .
  have mn: "min_val df c = Inr NaN"
    using p nanmin_all_missing [OF x] by (simp add: min_val_def series_min_def)
  have mx: "max_val df c = Inr NaN"
    using p nanmax_all_missing [OF x] by (simp add: max_val_def series_max_def)
  from mn mx show ?thesis by simp
qed

lemma zero_rows_column:
  assumes wf: "wf_df df" and z: "nrows df = 0" and c: "c \<in> set (columns df)"
  shows "all_missing df c \<and> value_counts df c = Inr []"
proof -
  from getitem_total [OF c] obtain s where s: "getitem df c = Inr s" "s \<in> set (df_columns df)"
    by blast
  from wf s(2) z have "svalues s = []"
    by (auto simp: wf_df_def wf_series_def list_all_iff nrows_def)
  then show ?thesis using s(1)
    by (simp add: all_missing_def value_counts_def series_value_counts_def sort_values_desc_def
        tally_def)
qed

text \<open>
  C3 (amended). Over a frame without rows, and over any column without values, the
  aggregates return ordinary values and report no error. The minimum and the maximum of a
  numeric column whose entries are all missing are not-a-number. In a frame without rows
  every column is of that kind, and the value counts of every column are the empty table.
\<close>

theorem aggregates_without_values:
  assumes wf: "wf_df df"
  shows "(\<forall>c \<in> set (numeric_cols df). all_missing df c \<longrightarrow>
            min_val df c = Inr NaN \<and> max_val df c = Inr NaN) \<and>
         (nrows df = 0 \<longrightarrow>
            (\<forall>c \<in> set (columns df). all_missing df c \<and> value_counts df c = Inr []))"
  using all_missing_column [OF wf] zero_rows_column [OF wf] by blast

theorem aggregates_without_values_witness:
  "wf_df all_missing_df \<and>
   ''score'' \<in> set (numeric_cols all_missing_df) \<and> all_missing all_missing_df ''score'' \<and>
   min_val all_missing_df ''score'' = Inr NaN \<and> max_val all_missing_df ''score'' = Inr NaN \<and>
   wf_df header_only_df \<and> nrows header_only_df = 0 \<and>
   ''city'' \<in> set (columns header_only_df) \<and>
   all_missing header_only_df ''city'' \<and> value_counts header_only_df ''city'' = Inr []"
proof -
  have h1: "wf_df all_missing_df"
    by (simp add: all_missing_df_def wf_df_def wf_series_def)
  have h3: "''score'' \<in> set (numeric_cols all_missing_df)"
    by (simp add: all_missing_df_def numeric_cols_def columns_def select_dtypes_def number_def)
  have h4: "all_missing all_missing_df ''score''"
    by (simp add: all_missing_df_def all_missing_def getitem_def isna_def)
  have g1: "wf_df header_only_df"
    by (simp add: header_only_df_def wf_df_def wf_series_def)
  have g3: "nrows header_only_df = 0"
    by (simp add: header_only_df_def nrows_def)
  have g4: "''city'' \<in> set (columns header_only_df)"
    by (simp add: header_only_df_def columns_def)
  from aggregates_without_values [OF h1] h3 h4
  have a: "min_val all_missing_df ''score'' = Inr NaN \<and> max_val all_missing_df ''score'' = Inr NaN"
    by blast
  from aggregates_without_values [OF g1] g3 g4
  have b: "all_missing header_only_df ''city'' \<and> value_counts header_only_df ''city'' = Inr []"
    by blast
  from h1 h3 h4 g1 g3 g4 a b show ?thesis by blast
qed

theorem empty_column_no_error_counterexample:
  "wf_df all_missing_df \<and> ''score'' \<in> set (numeric_cols all_missing_df) \<and>
   all_missing all_missing_df ''score'' \<and>
   min_val all_missing_df ''score'' = Inr NaN \<and> max_val all_missing_df ''score'' = Inr NaN \<and>
   \<not> isl (min_val all_missing_df ''score'') \<and> \<not> isl (max_val all_missing_df ''score'') \<and>
   wf_df header_only_df \<and> nrows header_only_df = 0 \<and>
   value_counts header_only_df ''age'' = Inr [] \<and>
   \<not> isl (value_counts header_only_df ''age'')"
  by (simp add: all_missing_df_def header_only_df_def wf_df_def wf_series_def numeric_cols_def
      columns_def select_dtypes_def number_def all_missing_def getitem_def isna_def
      min_val_def max_val_def series_min_def series_max_def nanmin_def nanmax_def notna_def
      nrows_def value_counts_def series_value_counts_def sort_values_desc_def tally_def)

subsection \<open>Value counts\<close>


















subsection \<open>The correlation matrix\<close>





























end
